theory Spec2Isabelle
  imports Complex_Main
begin

section \<open>Number model\<close>

text \<open>
  The physics engine of the repository works on JavaScript numbers. Quantum numbers and
  counts (\<open>n\<close>, \<open>l\<close>, \<open>m\<close>, loop indices) are modelled as \<^typ>\<open>int\<close> or \<^typ>\<open>nat\<close>,
  every other quantity (\<open>Z\<close>, \<open>r\<close>, angles, densities) as \<^typ>\<open>real\<close>. The model is
  therefore the exact-arithmetic reading of the code: IEEE rounding, \<open>NaN\<close> and
  \<open>Infinity\<close> are not represented (a division by zero is written out where the code's
  control flow depends on it).

  \<open>console.warn\<close> is modelled as a list of diagnostics returned next to the value.
\<close>

datatype diagnostic =
    InvalidRadial int int
  | InvalidAngular int int
  | Shortfall nat nat int int int

section \<open>radialWaveFunction.js\<close>

text \<open>Source: \<open>src/src/physics/radialWaveFunction.js\<close>.\<close>

definition BOHR_RADIUS :: real where
  "BOHR_RADIUS = 1.0"

subsection \<open>factorial with its memo table\<close>

text \<open>
  \<open>factorialCache\<close> is a module-level array, initially \<open>[1, 1]\<close>. The loop writes
  \<open>factorialCache[i]\<close> for \<open>i\<close> from the current length upwards; a write at the
  current length extends a JavaScript array by one cell (the loop never writes further
  out; cells skipped by such a write would be holes, shown here as \<open>0\<close>).
\<close>

definition factorialCache_init :: "real list" where
  "factorialCache_init = [1, 1]"

definition js_array_set :: "real list \<Rightarrow> nat \<Rightarrow> real \<Rightarrow> real list" where
  "js_array_set a i v =
     (if i < length a then a[i := v] else a @ replicate (i - length a) 0 @ [v])"

function factorial_loop :: "nat \<Rightarrow> nat \<Rightarrow> real \<Rightarrow> real list \<Rightarrow> real \<times> real list" where
  "factorial_loop i n result cache =
     (if i \<le> n
      then (let result' = result * real i
            in factorial_loop (i + 1) n result' (js_array_set cache i result'))
      else (result, cache))"
  by pat_completeness auto
termination
  by (relation "measure (\<lambda>(i, n, result, cache). Suc n - i)") auto

declare factorial_loop.simps [simp del]

definition factorial_memo :: "real list \<Rightarrow> int \<Rightarrow> real \<times> real list" where
  "factorial_memo cache n =
     (if n < 0 then (1, cache)
      else if nat n < length cache then (cache ! nat n, cache)
      else factorial_loop (length cache) (nat n) (cache ! (length cache - 1)) cache)"

text \<open>The value \<open>factorial\<close> returns, as a function of its argument alone
  (justified by \<open>factorial_memo_value\<close> below).\<close>

definition factorial :: "int \<Rightarrow> real" where
  "factorial n = (if n < 0 then 1 else fact (nat n))"

definition cache_inv :: "real list \<Rightarrow> bool" where
  "cache_inv cache \<longleftrightarrow> 2 \<le> length cache \<and> (\<forall>i < length cache. cache ! i = fact i)"

subsection \<open>Associated Laguerre polynomial\<close>

function laguerre_loop :: "int \<Rightarrow> int \<Rightarrow> real \<Rightarrow> real \<Rightarrow> real \<Rightarrow> real \<Rightarrow> real \<Rightarrow> real" where
  "laguerre_loop k n alpha x L_prev2 L_prev1 L_curr =
     (if k \<le> n
      then (let L_curr' = ((2 * real_of_int k - 1 + alpha - x) * L_prev1
                            - (real_of_int k - 1 + alpha) * L_prev2) / real_of_int k
            in laguerre_loop (k + 1) n alpha x L_prev1 L_curr' L_curr')
      else L_curr)"
  by pat_completeness auto
termination
  by (relation "measure (\<lambda>(k, n, alpha, x, p2, p1, c). nat (n + 1 - k))") auto

declare laguerre_loop.simps [simp del]

definition laguerrePolynomial :: "int \<Rightarrow> real \<Rightarrow> real \<Rightarrow> real" where
  "laguerrePolynomial n alpha x =
     (if n = 0 then 1
      else if n = 1 then 1 + alpha - x
      else laguerre_loop 2 n alpha x 1 (1 + alpha - x) 0)"

subsection \<open>Normalisation and the radial wave function\<close>

definition radialNormalization :: "int \<Rightarrow> int \<Rightarrow> real \<Rightarrow> real" where
  "radialNormalization n l Z =
     (let prefactor = (2 * Z / (real_of_int n * BOHR_RADIUS)) ^ 3;
          numerator = factorial (n - l - 1);
          denominator = 2 * real_of_int n * (factorial (n + l)) ^ 3
      in sqrt (prefactor * numerator / denominator))"

definition radialWaveFunction :: "int \<Rightarrow> int \<Rightarrow> real \<Rightarrow> real \<Rightarrow> real \<times> diagnostic list" where
  "radialWaveFunction n l r Z =
     (if n < 1 \<or> l < 0 \<or> l \<ge> n then (0, [InvalidRadial n l])
      else (let rho = (2 * Z * r) / (real_of_int n * BOHR_RADIUS);
                N = radialNormalization n l Z;
                rhoL = rho ^ nat l;
                expTerm = exp (- rho / 2);
                laguerre = laguerrePolynomial (n - l - 1) (real_of_int (2 * l + 1)) rho
            in (N * rhoL * expTerm * laguerre, [])))"

definition radialProbabilityDensity :: "int \<Rightarrow> int \<Rightarrow> real \<Rightarrow> real \<Rightarrow> real" where
  "radialProbabilityDensity n l r Z =
     (let R = fst (radialWaveFunction n l r Z) in R * R * r * r)"

definition maxRadialExtent :: "int \<Rightarrow> int \<Rightarrow> real \<Rightarrow> real" where
  "maxRadialExtent n l Z = (4 * real_of_int n * real_of_int n / Z) * BOHR_RADIUS"

definition mostProbableRadius :: "int \<Rightarrow> int \<Rightarrow> real \<Rightarrow> real" where
  "mostProbableRadius n l Z =
     ((real_of_int (n * n) - real_of_int (l * (l + 1)) / 2) / Z) * BOHR_RADIUS"

section \<open>sphericalHarmonics.js\<close>

text \<open>
  Source: \<open>src/unnamed/part_001\<close>, lines 1 to 142 (the module the others import as
  \<open>./sphericalHarmonics.js\<close>). \<open>x\<close> is \<open>cos theta\<close> in every call, so
  \<open>Math.sqrt(1 - x * x)\<close> has a non-negative argument.
\<close>

function doubleFactorial_loop :: "int \<Rightarrow> int \<Rightarrow> real \<Rightarrow> real" where
  "doubleFactorial_loop i absM doubleFactorial =
     (if i \<le> absM
      then doubleFactorial_loop (i + 1) absM (doubleFactorial * real_of_int (2 * i - 1))
      else doubleFactorial)"
  by pat_completeness auto
termination
  by (relation "measure (\<lambda>(i, absM, d). nat (absM + 1 - i))") auto

declare doubleFactorial_loop.simps [simp del]

function legendre_loop :: "int \<Rightarrow> int \<Rightarrow> int \<Rightarrow> real \<Rightarrow> real \<Rightarrow> real \<Rightarrow> real \<Rightarrow> real" where
  "legendre_loop ll l absM x Pmm Pmm1 Plm =
     (if ll \<le> l
      then (let Plm' = (x * real_of_int (2 * ll - 1) * Pmm1
                         - real_of_int (ll + absM - 1) * Pmm) / real_of_int (ll - absM)
            in legendre_loop (ll + 1) l absM x Pmm1 Plm' Plm')
      else Plm)"
  by pat_completeness auto
termination
  by (relation "measure (\<lambda>(ll, l, absM, x, a, b, c). nat (l + 1 - ll))") auto

declare legendre_loop.simps [simp del]

definition legendrePolynomial :: "int \<Rightarrow> int \<Rightarrow> real \<Rightarrow> real" where
  "legendrePolynomial l m x =
     (let absM = \<bar>m\<bar> in
      if absM > l then 0
      else (let Pmm = (if absM > 0
                       then (let sqrtTerm = sqrt (1 - x * x);
                                 doubleFactorial = doubleFactorial_loop 1 absM 1
                             in (- 1) ^ nat absM * doubleFactorial * sqrtTerm ^ nat absM)
                       else 1)
            in if l = absM then Pmm
               else (let Pmm1 = x * real_of_int (2 * absM + 1) * Pmm
                     in if l = absM + 1 then Pmm1
                        else legendre_loop (absM + 2) l absM x Pmm Pmm1 0)))"

definition sphericalHarmonicNormalization :: "int \<Rightarrow> int \<Rightarrow> real" where
  "sphericalHarmonicNormalization l m =
     (let absM = \<bar>m\<bar>;
          numerator = real_of_int (2 * l + 1) * factorial (l - absM);
          denominator = 4 * pi * factorial (l + absM)
      in sqrt (numerator / denominator))"

definition sphericalHarmonic :: "int \<Rightarrow> int \<Rightarrow> real \<Rightarrow> real \<Rightarrow> real \<times> diagnostic list" where
  "sphericalHarmonic l m theta phi =
     (if l < 0 \<or> \<bar>m\<bar> > l then (0, [InvalidAngular l m])
      else (let N = sphericalHarmonicNormalization l m;
                P = legendrePolynomial l \<bar>m\<bar> (cos theta)
            in if m > 0 then (N * sqrt 2 * P * cos (real_of_int m * phi), [])
               else if m < 0 then (N * sqrt 2 * P * sin (real_of_int \<bar>m\<bar> * phi), [])
               else (N * P, [])))"

definition angularProbabilityDensity :: "int \<Rightarrow> int \<Rightarrow> real \<Rightarrow> real \<Rightarrow> real" where
  "angularProbabilityDensity l m theta phi =
     (let Y = fst (sphericalHarmonic l m theta phi) in Y * Y)"

section \<open>probabilityDensity.js\<close>

text \<open>Source: \<open>src/src/physics/probabilityDensity.js\<close>.\<close>

definition probabilityDensity :: "int \<Rightarrow> int \<Rightarrow> int \<Rightarrow> real \<Rightarrow> real \<Rightarrow> real \<Rightarrow> real \<Rightarrow> real" where
  "probabilityDensity n l m r theta phi Z =
     (let R = fst (radialWaveFunction n l r Z);
          Y = fst (sphericalHarmonic l m theta phi)
      in R * R * Y * Y)"

text \<open>The objects \<open>{x, y, z}\<close> and \<open>{r, theta, phi}\<close> are triples, in this order.\<close>

definition sphericalToCartesian :: "real \<Rightarrow> real \<Rightarrow> real \<Rightarrow> real \<times> real \<times> real" where
  "sphericalToCartesian r theta phi =
     (let sinTheta = sin theta
      in (r * sinTheta * cos phi, r * sinTheta * sin phi, r * cos theta))"

text \<open>
  \<open>Math.atan2(y, x)\<close> as ECMAScript specifies it on finite numbers: the angle of the
  point \<open>(x, y)\<close> in \<open>(-\<pi>, \<pi>]\<close>, and \<open>0\<close> at the origin.
\<close>

definition atan2 :: "real \<Rightarrow> real \<Rightarrow> real" where
  "atan2 y x =
     (if x > 0 then arctan (y / x)
      else if x < 0 then (if y \<ge> 0 then arctan (y / x) + pi else arctan (y / x) - pi)
      else if y > 0 then pi / 2
      else if y < 0 then - pi / 2
      else 0)"

definition cartesianToSpherical :: "real \<Rightarrow> real \<Rightarrow> real \<Rightarrow> real \<times> real \<times> real" where
  "cartesianToSpherical x y z =
     (let r = sqrt (x * x + y * y + z * z)
      in if r = 0 then (0, 0, 0)
         else (r, arccos (z / r), atan2 y x))"

definition probabilityDensityCartesian :: "int \<Rightarrow> int \<Rightarrow> int \<Rightarrow> real \<Rightarrow> real \<Rightarrow> real \<Rightarrow> real \<Rightarrow> real" where
  "probabilityDensityCartesian n l m x y z Z =
     (case cartesianToSpherical x y z of (r, theta, phi) \<Rightarrow> probabilityDensity n l m r theta phi Z)"

subsection \<open>Random draws\<close>

text \<open>
  \<open>Math.random()\<close> is an injected stream \<open>rnd :: nat \<Rightarrow> real\<close>: the \<open>k\<close>-th call of the
  run returns \<open>rnd k\<close>. A function that draws takes the number of draws made so far and
  returns the number made when it is done.
\<close>

type_synonym random_source = "nat \<Rightarrow> real"

text \<open>The density at the point drawn by one pass of the loop of \<open>findMaxProbability\<close>
  (draws \<open>rnd k\<close>, \<open>rnd (k + 1)\<close>, \<open>rnd (k + 2)\<close>).\<close>

definition findMax_sample :: "random_source \<Rightarrow> int \<Rightarrow> int \<Rightarrow> int \<Rightarrow> real \<Rightarrow> real \<Rightarrow> nat \<Rightarrow> real" where
  "findMax_sample rnd n l m Z maxR k =
     (let r = rnd k * maxR;
          theta = arccos (2 * rnd (k + 1) - 1);
          phi = rnd (k + 2) * 2 * pi
      in probabilityDensity n l m r theta phi Z)"

function findMax_loop ::
  "random_source \<Rightarrow> int \<Rightarrow> int \<Rightarrow> int \<Rightarrow> real \<Rightarrow> real \<Rightarrow> nat \<Rightarrow> nat \<Rightarrow> real \<Rightarrow> nat \<Rightarrow> real \<times> nat" where
  "findMax_loop rnd n l m Z maxR samples i maxP rng =
     (if i < samples
      then (let P = findMax_sample rnd n l m Z maxR rng
            in findMax_loop rnd n l m Z maxR samples (i + 1)
                 (if P > maxP then P else maxP) (rng + 3))
      else (maxP, rng))"
  by pat_completeness auto
termination
  by (relation "measure (\<lambda>(rnd, n, l, m, Z, maxR, samples, i, maxP, rng). samples - i)") auto

declare findMax_loop.simps [simp del]

definition findMaxProbability ::
  "random_source \<Rightarrow> nat \<Rightarrow> int \<Rightarrow> int \<Rightarrow> int \<Rightarrow> real \<Rightarrow> nat \<Rightarrow> real \<times> nat" where
  "findMaxProbability rnd rng n l m Z samples =
     (let maxR = maxRadialExtent n l Z;
          (maxP, rng') = findMax_loop rnd n l m Z maxR samples 0 0 rng
      in (maxP * 1.2, rng'))"

subsection \<open>The max-probability cache\<close>

text \<open>
  \<open>maxProbabilityCache\<close> is a module-level \<open>Map\<close> keyed by the string
  \<open>`${n},${l},${m},${Z}`\<close>; the string determines the four numbers, so the key is the
  tuple. The state of the module is the cache together with the number of random draws
  made so far: a recomputation shows as draws.
\<close>

type_synonym cache_key = "int \<times> int \<times> int \<times> real"

record module_state =
  maxProbabilityCache :: "cache_key \<rightharpoonup> real"
  draws :: nat

definition getMaxProbability ::
  "random_source \<Rightarrow> int \<Rightarrow> int \<Rightarrow> int \<Rightarrow> real \<Rightarrow> module_state \<Rightarrow> real \<times> module_state" where
  "getMaxProbability rnd n l m Z st =
     (let key = (n, l, m, Z);
          st' = (if maxProbabilityCache st key = None
                 then (let (v, rng') = findMaxProbability rnd (draws st) n l m Z 2000
                       in st\<lparr>maxProbabilityCache := (maxProbabilityCache st)(key \<mapsto> v),
                             draws := rng'\<rparr>)
                 else st)
      in (the (maxProbabilityCache st' key), st'))"

definition clearProbabilityCache :: "module_state \<Rightarrow> module_state" where
  "clearProbabilityCache st = st\<lparr>maxProbabilityCache := Map.empty\<rparr>"

text \<open>The calls a client can make on the cache, and a run of them.\<close>

datatype cache_call = Get int int int real | Clear

fun exec_call :: "random_source \<Rightarrow> cache_call \<Rightarrow> module_state \<Rightarrow> module_state" where
  "exec_call rnd (Get n l m Z) st = snd (getMaxProbability rnd n l m Z st)"
| "exec_call rnd Clear st = clearProbabilityCache st"

fun exec_calls :: "random_source \<Rightarrow> cache_call list \<Rightarrow> module_state \<Rightarrow> module_state" where
  "exec_calls rnd [] st = st"
| "exec_calls rnd (c # cs) st = exec_calls rnd cs (exec_call rnd c st)"

section \<open>orbitalSampler.js\<close>

text \<open>
  Source: \<open>src/unnamed/part_001\<close>, lines 143 to 315 (imported by the renderer as
  \<open>../physics/orbitalSampler.js\<close>).
\<close>

subsection \<open>estimateMaxProbability\<close>

text \<open>The weighted density at the point drawn by one pass of the loop (draws \<open>rnd k\<close>
  to \<open>rnd (k + 3)\<close>).\<close>

definition estimate_sample ::
  "random_source \<Rightarrow> int \<Rightarrow> int \<Rightarrow> int \<Rightarrow> real \<Rightarrow> real \<Rightarrow> real \<Rightarrow> nat \<Rightarrow> real" where
  "estimate_sample rnd n l m Z maxR rPeak k =
     (let r0 = (if rnd k < 0.7
                then rPeak * (0.3 + rnd (k + 1) * 1.4)
                else maxR * rnd (k + 1));
          r = max 0.01 (min r0 maxR);
          theta = arccos (2 * rnd (k + 2) - 1);
          phi = rnd (k + 3) * 2 * pi;
          P = probabilityDensity n l m r theta phi Z;
          volumeWeight = r * r * sin theta
      in P * volumeWeight)"

function estimate_loop ::
  "random_source \<Rightarrow> int \<Rightarrow> int \<Rightarrow> int \<Rightarrow> real \<Rightarrow> real \<Rightarrow> real \<Rightarrow> nat \<Rightarrow> nat \<Rightarrow> real \<Rightarrow> nat \<Rightarrow> real \<times> nat" where
  "estimate_loop rnd n l m Z maxR rPeak samples i maxP rng =
     (if i < samples
      then (let weightedP = estimate_sample rnd n l m Z maxR rPeak rng
            in estimate_loop rnd n l m Z maxR rPeak samples (i + 1)
                 (if weightedP > maxP then weightedP else maxP) (rng + 4))
      else (maxP, rng))"
  by pat_completeness auto
termination
  by (relation "measure (\<lambda>(rnd, n, l, m, Z, maxR, rPeak, samples, i, maxP, rng). samples - i)") auto

declare estimate_loop.simps [simp del]

definition estimateMaxProbability ::
  "random_source \<Rightarrow> nat \<Rightarrow> int \<Rightarrow> int \<Rightarrow> int \<Rightarrow> real \<Rightarrow> real \<Rightarrow> real \<times> nat" where
  "estimateMaxProbability rnd rng n l m Z maxR =
     (let samples = 5000;
          rPeak = mostProbableRadius n l Z;
          (maxP, rng') = estimate_loop rnd n l m Z maxR rPeak samples 0 0 rng
      in (maxP * 1.5, rng'))"

subsection \<open>sampleOrbital\<close>

text \<open>
  The variables of the \<open>while\<close> loop. \<open>points\<close> is the \<open>Float32Array\<close> of
  \<open>numPoints * 3\<close> cells (a write past its end is dropped, as \<open>list_update\<close> does);
  the cells hold the numbers as stored (the rounding to 32 bits is not modelled);
  \<open>rng\<close> counts the random draws made so far.
\<close>

record sampler_state =
  points :: "real list"
  pointIndex :: nat
  attempts :: nat
  maxP :: real
  rng :: nat

text \<open>The candidate of one attempt: \<open>(r, theta, phi)\<close>, drawn from
  \<open>rnd k\<close>, \<open>rnd (k + 1)\<close>, \<open>rnd (k + 2)\<close>, and its weighted density.\<close>

definition candidate :: "random_source \<Rightarrow> nat \<Rightarrow> real \<Rightarrow> real \<times> real \<times> real" where
  "candidate rnd k maxR =
     (let u = rnd k;
          r = maxR * (u powr (1 / 3));
          theta = arccos (2 * rnd (k + 1) - 1);
          phi = rnd (k + 2) * 2 * pi
      in (r, theta, phi))"

definition weightedDensity :: "int \<Rightarrow> int \<Rightarrow> int \<Rightarrow> real \<Rightarrow> real \<times> real \<times> real \<Rightarrow> real" where
  "weightedDensity n l m Z c =
     (case c of (r, theta, phi) \<Rightarrow>
        (let P = probabilityDensity n l m r theta phi Z;
             volumeWeight = r * r * sin theta
         in P * volumeWeight))"

text \<open>One pass through the body of the loop.\<close>

definition sample_attempt ::
  "random_source \<Rightarrow> int \<Rightarrow> int \<Rightarrow> int \<Rightarrow> real \<Rightarrow> real \<Rightarrow> sampler_state \<Rightarrow> sampler_state" where
  "sample_attempt rnd n l m Z maxR s =
     (let attempts' = attempts s + 1;
          c = candidate rnd (rng s) maxR;
          weightedP = weightedDensity n l m Z c;
          s1 = (if rnd (rng s + 3) * maxP s < weightedP
                then (case c of (r, theta, phi) \<Rightarrow>
                        (case sphericalToCartesian r theta phi of (x, y, z) \<Rightarrow>
                           s\<lparr>points := (points s)[pointIndex s := x,
                                                   pointIndex s + 1 := y,
                                                   pointIndex s + 2 := z],
                             pointIndex := pointIndex s + 3\<rparr>))
                else s);
          maxP' = (if attempts' > 1000 \<and> real (pointIndex s1) < real attempts' * 0.01
                   then maxP s1 * 2 else maxP s1)
      in s1\<lparr>attempts := attempts', maxP := maxP', rng := rng s + 4\<rparr>)"

function sample_loop ::
  "random_source \<Rightarrow> int \<Rightarrow> int \<Rightarrow> int \<Rightarrow> real \<Rightarrow> real \<Rightarrow> nat \<Rightarrow> sampler_state \<Rightarrow> sampler_state" where
  "sample_loop rnd n l m Z maxR numPoints s =
     (if pointIndex s < numPoints * 3 \<and> attempts s < numPoints * 100
      then sample_loop rnd n l m Z maxR numPoints (sample_attempt rnd n l m Z maxR s)
      else s)"
  by pat_completeness auto
termination
  by (relation "measure (\<lambda>(rnd, n, l, m, Z, maxR, numPoints, s). numPoints * 100 - attempts s)")
     (auto simp: sample_attempt_def Let_def split: prod.splits)

declare sample_loop.simps [simp del]

text \<open>The state in which \<open>sampleOrbital\<close> enters its loop, and the state in which it
  leaves it.\<close>

definition sample_init :: "random_source \<Rightarrow> nat \<Rightarrow> int \<Rightarrow> int \<Rightarrow> int \<Rightarrow> nat \<Rightarrow> real \<Rightarrow> sampler_state" where
  "sample_init rnd rng0 n l m numPoints Z =
     (let maxR = maxRadialExtent n l Z;
          (maxP0, rng1) = estimateMaxProbability rnd rng0 n l m Z maxR
      in \<lparr>points = replicate (numPoints * 3) 0, pointIndex = 0, attempts = 0,
          maxP = maxP0, rng = rng1\<rparr>)"

definition sample_final :: "random_source \<Rightarrow> nat \<Rightarrow> int \<Rightarrow> int \<Rightarrow> int \<Rightarrow> nat \<Rightarrow> real \<Rightarrow> sampler_state" where
  "sample_final rnd rng0 n l m numPoints Z =
     sample_loop rnd n l m Z (maxRadialExtent n l Z) numPoints
       (sample_init rnd rng0 n l m numPoints Z)"

text \<open>
  \<open>sampleOrbital\<close> returns the buffer; the model adds the warning it logs and the
  number of draws made. \<open>numPoints\<close> is an integer; \<open>new Float32Array(numPoints * 3)\<close>
  throws a \<open>RangeError\<close> for a negative length, before anything else happens.
\<close>

datatype js_error = RangeError

definition sampleOrbital ::
  "random_source \<Rightarrow> nat \<Rightarrow> int \<Rightarrow> int \<Rightarrow> int \<Rightarrow> int \<Rightarrow> real
     \<Rightarrow> js_error + (real list \<times> diagnostic list \<times> nat)" where
  "sampleOrbital rnd rng0 n l m numPoints Z =
     (if numPoints < 0 then Inl RangeError
      else (let np = nat numPoints;
                s = sample_final rnd rng0 n l m np Z
            in if pointIndex s < np * 3
               then Inr (take (pointIndex s) (points s),
                         [Shortfall (pointIndex s div 3) np n l m], rng s)
               else Inr (points s, [], rng s)))"

subsection \<open>sampleSubshell\<close>

text \<open>
  The number of electrons given to the orbital \<open>m\<close>. \<open>electronsPerOrbital\<close> is a
  quotient of numbers; when it is \<open>0\<close> the two inner quotients are \<open>0/0 = NaN\<close>, the
  difference is \<open>NaN\<close>, and \<open>||\<close> takes its right operand, as it does when the
  difference is \<open>0\<close>.
\<close>

definition electronsInThisOrbital :: "int \<Rightarrow> int \<Rightarrow> int \<Rightarrow> int" where
  "electronsInThisOrbital l totalElectrons m =
     (let electronsPerOrbital = real_of_int totalElectrons / real_of_int (2 * l + 1);
          difference =
            (if electronsPerOrbital = 0 then None
             else Some (\<lceil>electronsPerOrbital * real_of_int (m + l + 1) / electronsPerOrbital\<rceil>
                        - \<lfloor>electronsPerOrbital * real_of_int (m + l) / electronsPerOrbital\<rfloor>));
          alternative = \<lfloor>real_of_int totalElectrons / real_of_int (2 * l + 1)\<rfloor>
      in min 2 (case difference of
                  None \<Rightarrow> alternative
                | Some d \<Rightarrow> if d = 0 then alternative else d))"

record subshell_entry =
  entry_m :: int
  entry_electrons :: int
  entry_points :: "real list"

function subshell_loop ::
  "random_source \<Rightarrow> int \<Rightarrow> int \<Rightarrow> int \<Rightarrow> real \<Rightarrow> real \<Rightarrow> int \<Rightarrow> nat \<Rightarrow> subshell_entry list
     \<Rightarrow> js_error + (subshell_entry list \<times> nat)" where
  "subshell_loop rnd n l totalElectrons pointsPerElectron Z m rng0 results =
     (if m \<le> l
      then (let e = electronsInThisOrbital l totalElectrons m
            in if e > 0
               then (let numPoints = \<lceil>pointsPerElectron * real_of_int e\<rceil>
                     in case sampleOrbital rnd rng0 n l m numPoints Z of
                          Inl err \<Rightarrow> Inl err
                        | Inr (buf, warnings, rng1) \<Rightarrow>
                            subshell_loop rnd n l totalElectrons pointsPerElectron Z (m + 1) rng1
                              (results @ [\<lparr>entry_m = m, entry_electrons = e, entry_points = buf\<rparr>]))
               else subshell_loop rnd n l totalElectrons pointsPerElectron Z (m + 1) rng0 results)
      else Inr (results, rng0))"
  by pat_completeness auto
termination
  by (relation "measure (\<lambda>(rnd, n, l, t, p, Z, m, rng0, results). nat (l + 1 - m))") auto

declare subshell_loop.simps [simp del]

definition sampleSubshell ::
  "random_source \<Rightarrow> nat \<Rightarrow> int \<Rightarrow> int \<Rightarrow> int \<Rightarrow> real \<Rightarrow> real
     \<Rightarrow> js_error + (subshell_entry list \<times> nat)" where
  "sampleSubshell rnd rng0 n l totalElectrons pointsPerElectron Z =
     subshell_loop rnd n l totalElectrons pointsPerElectron Z (- l) rng0 []"

text \<open>What holds of the loop variables of \<open>sampleOrbital\<close> whenever the loop condition is
  tested; \<open>rng1\<close> is the number of draws made before the loop.\<close>

definition loop_inv :: "nat \<Rightarrow> nat \<Rightarrow> sampler_state \<Rightarrow> bool" where
  "loop_inv numPoints rng1 s \<longleftrightarrow>
     3 dvd pointIndex s \<and> pointIndex s \<le> numPoints * 3 \<and>
     length (points s) = numPoints * 3 \<and> attempts s \<le> numPoints * 100 \<and>
     rng s = rng1 + 4 * attempts s"

section \<open>Concrete runs\<close>

text \<open>
  Two streams of draws, all in \<open>[0, 1)\<close>, for the 1s orbital (\<open>n = 1\<close>, \<open>l = 0\<close>, \<open>m = 0\<close>,
  \<open>Z = 1\<close>, so \<open>maxR = 4\<close> and \<open>rPeak = 1\<close>). The first \<open>20000\<close> draws are those of
  \<open>estimateMaxProbability\<close> (four per pass), the later ones those of the sampling loop
  (four per attempt).

  \<open>ceiling_rnd\<close>: every pass of the estimate takes the full-range branch and samples at
  \<open>r = 3\<close>, \<open>theta = \<pi>/2\<close>; every candidate is \<open>r = 1\<close>, \<open>theta = \<pi>/2\<close>, \<open>phi = 0\<close>.
\<close>

definition ceiling_rnd :: random_source where
  "ceiling_rnd k =
     (if k < 20000
      then (if k mod 4 = 0 then 9 / 10 else if k mod 4 = 1 then 3 / 4
            else if k mod 4 = 2 then 1 / 2 else 0)
      else (if k mod 4 = 0 then 1 / 64 else if k mod 4 = 1 then 1 / 2
            else if k mod 4 = 2 then 0 else 99 / 100))"

text \<open>
  \<open>slow_rnd\<close>: every pass of the estimate samples at \<open>r = 1\<close>, \<open>theta = \<pi>/2\<close>; the first four
  candidates are \<open>r = 2\<close>, \<open>theta = \<pi>/2\<close>, \<open>phi = 0\<close> with acceptance draw \<open>0\<close>; every later
  candidate is the origin (\<open>u = 0\<close>).
\<close>

definition slow_rnd :: random_source where
  "slow_rnd k =
     (if k < 20000 then 1 / 2
      else if k < 20016
      then (if k mod 4 = 0 then 1 / 8 else if k mod 4 = 1 then 1 / 2 else 0)
      else 0)"

text \<open>Spherical to Cartesian and back.\<close>

definition spherical_roundtrip :: "real \<Rightarrow> real \<Rightarrow> real \<Rightarrow> real \<times> real \<times> real" where
  "spherical_roundtrip r theta phi =
     (case sphericalToCartesian r theta phi of (x, y, z) \<Rightarrow> cartesianToSpherical x y z)"

section \<open>The memo table of factorial\<close>

lemma factorial_loop_fact:
  "result = fact (i - 1) \<Longrightarrow> 0 < i \<Longrightarrow> i = length cache \<Longrightarrow> i \<le> Suc n \<Longrightarrow>
   \<forall>j < length cache. cache ! j = fact j \<Longrightarrow>
   fst (factorial_loop i n result cache) = fact n \<and>
   length (snd (factorial_loop i n result cache)) = Suc n \<and>
   (\<forall>j \<le> n. snd (factorial_loop i n result cache) ! j = fact j)"
proof (induction i n result cache rule: factorial_loop.induct)
  case (1 i n result cache)
  show ?case
  proof (cases "i \<le> n")
    case True
    have r: "result * real i = fact i"
      using "1.prems"(1,2) by (cases i) (simp_all add: algebra_simps)
    have len: "length (js_array_set cache i (result * real i)) = i + 1"
      using "1.prems"(3) by (simp add: js_array_set_def)
    have cells: "\<forall>j < length (js_array_set cache i (result * real i)).
                   js_array_set cache i (result * real i) ! j = fact j"
      using "1.prems"(3,5) r by (auto simp: js_array_set_def nth_append less_Suc_eq)
    have "fst (factorial_loop (i + 1) n (result * real i) (js_array_set cache i (result * real i))) = fact n \<and>
          length (snd (factorial_loop (i + 1) n (result * real i) (js_array_set cache i (result * real i)))) = Suc n \<and>
          (\<forall>j \<le> n. snd (factorial_loop (i + 1) n (result * real i) (js_array_set cache i (result * real i))) ! j = fact j)"
      using "1.IH"[OF True refl] r len cells True by simp
    then show ?thesis using True by (subst (1 2 3) factorial_loop.simps) (simp add: Let_def)
  next
    case False
    with "1.prems" have i: "i = Suc n" by simp
    then have "result = fact n" using "1.prems"(1) by simp
    with "1.prems"(3,5) i show ?thesis
      by (subst (1 2 3) factorial_loop.simps) (auto simp: less_Suc_eq_le)
  qed
qed

lemma factorial_memo_value:
  assumes "cache_inv cache"
  shows "fst (factorial_memo cache n) = factorial n \<and> cache_inv (snd (factorial_memo cache n))"
proof (cases "n < 0 \<or> nat n < length cache")
  case True
  then show ?thesis using assms by (auto simp: factorial_memo_def factorial_def cache_inv_def)
next
  case False
  then have n: "0 \<le> n" "length cache \<le> nat n" by auto
  have l2: "2 \<le> length cache" and cells: "\<forall>j < length cache. cache ! j = fact j"
    using assms by (auto simp: cache_inv_def)
  have last: "cache ! (length cache - 1) = fact (length cache - 1)"
    using l2 cells by simp
  have "fst (factorial_loop (length cache) (nat n) (cache ! (length cache - 1)) cache) = fact (nat n) \<and>
   length (snd (factorial_loop (length cache) (nat n) (cache ! (length cache - 1)) cache)) = Suc (nat n) \<and>
   (\<forall>j \<le> nat n. snd (factorial_loop (length cache) (nat n) (cache ! (length cache - 1)) cache) ! j = fact j)"
    by (rule factorial_loop_fact) (use l2 cells last n in auto)
  then show ?thesis using False n l2
    by (auto simp: factorial_memo_def factorial_def cache_inv_def)
qed

lemma factorialCache_init_inv: "cache_inv factorialCache_init"
  by (auto simp: cache_inv_def factorialCache_init_def less_Suc_eq numeral_2_eq_2)

section \<open>Invalid quantum numbers and the Legendre symmetry\<close>

text \<open>
  C10: \<open>legendrePolynomial(l, m, x)\<close> depends on \<open>m\<close> only through \<open>|m|\<close>: its value at
  \<open>m\<close> and at \<open>-m\<close> is the same for every \<open>l\<close>, \<open>m\<close> and \<open>x\<close>, and it is the value at
  \<open>|m|\<close>, which is what \<open>sphericalHarmonic\<close> passes.
\<close>

theorem legendrePolynomial_abs_m:
  "legendrePolynomial l m x = legendrePolynomial l (- m) x \<and>
   legendrePolynomial l \<bar>m\<bar> x = legendrePolynomial l m x"
  by (simp add: legendrePolynomial_def)

text \<open>
  C5: for invalid quantum numbers (\<open>n < 1\<close>, \<open>l < 0\<close> or \<open>l \<ge> n\<close>) \<open>radialWaveFunction\<close>
  returns \<open>0\<close>, and for invalid \<open>l < 0\<close> or \<open>|m| > l\<close> \<open>sphericalHarmonic\<close> returns \<open>0\<close>;
  each logs one warning and nothing is thrown (the functions have no error result).
\<close>

theorem invalid_quantum_numbers_zero:
  "((n < 1 \<or> l < 0 \<or> l \<ge> n) \<longrightarrow> radialWaveFunction n l r Z = (0, [InvalidRadial n l])) \<and>
   ((l' < 0 \<or> \<bar>m\<bar> > l') \<longrightarrow> sphericalHarmonic l' m theta phi = (0, [InvalidAngular l' m]))"
  by (simp add: radialWaveFunction_def sphericalHarmonic_def)

theorem invalid_quantum_numbers_zero_witness:
  "radialWaveFunction 0 0 1 1 = (0, [InvalidRadial 0 0]) \<and>
   radialWaveFunction 1 1 1 1 = (0, [InvalidRadial 1 1]) \<and>
   sphericalHarmonic 1 2 0 0 = (0, [InvalidAngular 1 2])"
  using invalid_quantum_numbers_zero [of 0 0 1 1 1 2 0 0]
    invalid_quantum_numbers_zero [of 1 1 1 1 1 2 0 0]
  by simp

section \<open>Radial normalisation\<close>

lemma radialNormalization_1s: "radialNormalization 1 0 1 = 2"
proof -
  have "radialNormalization 1 0 1 = sqrt 4"
    by (simp add: radialNormalization_def factorial_def BOHR_RADIUS_def)
  also have "\<dots> = 2" using real_sqrt_abs[of 2] by simp
  finally show ?thesis .
qed

lemma radialNormalization_2s: "radialNormalization 2 0 1 = sqrt (1 / 32)"
  by (simp add: radialNormalization_def factorial_def BOHR_RADIUS_def Let_def fact_numeral nat_numeral)

lemma radialNormalization_2p: "radialNormalization 2 1 1 = sqrt (1 / 864)"
  by (simp add: radialNormalization_def factorial_def BOHR_RADIUS_def Let_def fact_numeral eval_nat_numeral)

lemma radial_1s: "radialWaveFunction 1 0 r 1 = (2 * exp (- r), [])"
  using radialNormalization_1s
  by (simp add: radialWaveFunction_def laguerrePolynomial_def BOHR_RADIUS_def Let_def)

text \<open>
  C7: the claim gives \<open>radialNormalization(2, 0, 1) = 1/\<surd>2\<close> and
  \<open>radialNormalization(2, 1, 1) = 1/(2\<surd>6)\<close>, as the repository's test file does. The
  code divides by the cube of \<open>(n + l)!\<close> and returns \<open>\<surd>(1/32)\<close> and \<open>\<surd>(1/864)\<close>.
\<close>

theorem radialNormalization_n2_values:
  "radialNormalization 2 0 1 = sqrt (1 / 32) \<and> radialNormalization 2 0 1 \<noteq> 1 / sqrt 2 \<and>
   radialNormalization 2 1 1 = sqrt (1 / 864) \<and> radialNormalization 2 1 1 \<noteq> 1 / (2 * sqrt 6)"
proof -
  have "sqrt (1 / 32) \<noteq> sqrt (1 / 2)" by simp
  then have a: "radialNormalization 2 0 1 \<noteq> 1 / sqrt 2"
    by (simp add: radialNormalization_2s real_sqrt_divide)
  have "sqrt (1 / 864) \<noteq> sqrt (1 / 24)" by simp
  moreover have "1 / (2 * sqrt 6) = sqrt (1 / 24)"
  proof -
    have "sqrt 24 = sqrt (4 * 6)" by simp
    also have "\<dots> = 2 * sqrt 6" by (simp only: real_sqrt_mult) simp
    finally show ?thesis by (simp add: real_sqrt_divide)
  qed
  ultimately have b: "radialNormalization 2 1 1 \<noteq> 1 / (2 * sqrt 6)"
    by (simp add: radialNormalization_2p)
  show ?thesis using a b radialNormalization_2s radialNormalization_2p by simp
qed

section \<open>The sampling loop\<close>

lemma sample_attempt_attempts [simp]:
  "attempts (sample_attempt rnd n l m Z maxR s) = attempts s + 1"
  by (simp add: sample_attempt_def Let_def split: prod.splits)

lemma sample_attempt_rng [simp]:
  "rng (sample_attempt rnd n l m Z maxR s) = rng s + 4"
  by (simp add: sample_attempt_def Let_def split: prod.splits)

lemma sample_attempt_length [simp]:
  "length (points (sample_attempt rnd n l m Z maxR s)) = length (points s)"
  by (simp add: sample_attempt_def Let_def split: prod.splits)

lemma sample_attempt_pointIndex:
  "pointIndex (sample_attempt rnd n l m Z maxR s) = pointIndex s \<or>
   pointIndex (sample_attempt rnd n l m Z maxR s) = pointIndex s + 3"
  by (simp add: sample_attempt_def Let_def split: prod.splits)

lemma sample_attempt_pointIndex_eq:
  "pointIndex (sample_attempt rnd n l m Z maxR s) =
     (if rnd (rng s + 3) * maxP s < weightedDensity n l m Z (candidate rnd (rng s) maxR)
      then pointIndex s + 3 else pointIndex s)"
  by (simp add: sample_attempt_def Let_def split: prod.splits)

lemma sample_attempt_maxP_eq:
  "maxP (sample_attempt rnd n l m Z maxR s) =
     (if attempts s + 1 > 1000 \<and>
         real (pointIndex (sample_attempt rnd n l m Z maxR s)) < real (attempts s + 1) * 0.01
      then maxP s * 2 else maxP s)"
  by (simp add: sample_attempt_def Let_def split: prod.splits)

lemma sample_attempt_points_eq:
  "points (sample_attempt rnd n l m Z maxR s) =
     (if rnd (rng s + 3) * maxP s < weightedDensity n l m Z (candidate rnd (rng s) maxR)
      then (case candidate rnd (rng s) maxR of (r, theta, phi) \<Rightarrow>
              (case sphericalToCartesian r theta phi of (x, y, z) \<Rightarrow>
                 (points s)[pointIndex s := x, pointIndex s + 1 := y, pointIndex s + 2 := z]))
      else points s)"
  by (simp add: sample_attempt_def Let_def split: prod.splits)

lemma sample_attempt_reject:
  assumes "\<not> rnd (rng s + 3) * maxP s < weightedDensity n l m Z (candidate rnd (rng s) maxR)"
    and "\<not> (attempts s + 1 > 1000 \<and> real (pointIndex s) < real (attempts s + 1) * 0.01)"
  shows "sample_attempt rnd n l m Z maxR s = s\<lparr>attempts := attempts s + 1, rng := rng s + 4\<rparr>"
  using assms by (auto simp: sample_attempt_def Let_def)

lemma loop_inv_attempt:
  assumes "loop_inv numPoints rng1 s"
    and "pointIndex s < numPoints * 3" and "attempts s < numPoints * 100"
  shows "loop_inv numPoints rng1 (sample_attempt rnd n l m Z maxR s)"
proof -
  from assms(1) have d: "3 dvd pointIndex s" by (simp add: loop_inv_def)
  have d3: "3 dvd numPoints * 3" by simp
  from d d3 assms(2) have "pointIndex s + 3 \<le> numPoints * 3"
    by (auto simp: dvd_def)
  with assms sample_attempt_pointIndex[of rnd n l m Z maxR s] show ?thesis
    by (auto simp: loop_inv_def)
qed

lemma sample_loop_continue:
  "pointIndex s < numPoints * 3 \<Longrightarrow> attempts s < numPoints * 100 \<Longrightarrow>
   sample_loop rnd n l m Z maxR numPoints s =
   sample_loop rnd n l m Z maxR numPoints (sample_attempt rnd n l m Z maxR s)"
  by (subst sample_loop.simps) simp

lemma sample_loop_stop:
  "\<not> (pointIndex s < numPoints * 3 \<and> attempts s < numPoints * 100) \<Longrightarrow>
   sample_loop rnd n l m Z maxR numPoints s = s"
  by (subst sample_loop.simps) auto

lemma loop_inv_loop:
  "loop_inv numPoints rng1 s \<Longrightarrow> loop_inv numPoints rng1 (sample_loop rnd n l m Z maxR numPoints s)"
proof (induction rnd n l m Z maxR numPoints s rule: sample_loop.induct)
  case (1 rnd n l m Z maxR numPoints s)
  show ?case
  proof (cases "pointIndex s < numPoints * 3 \<and> attempts s < numPoints * 100")
    case True
    then have "loop_inv numPoints rng1 (sample_attempt rnd n l m Z maxR s)"
      using loop_inv_attempt "1.prems" by blast
    from "1.IH"[OF True this] show ?thesis
      using True by (simp add: sample_loop_continue)
  next
    case False
    then show ?thesis using "1.prems" by (simp add: sample_loop_stop)
  qed
qed

lemma sample_loop_exit:
  "\<not> (pointIndex (sample_loop rnd n l m Z maxR numPoints s) < numPoints * 3 \<and>
       attempts (sample_loop rnd n l m Z maxR numPoints s) < numPoints * 100)"
proof (induction rnd n l m Z maxR numPoints s rule: sample_loop.induct)
  case (1 rnd n l m Z maxR numPoints s)
  show ?case
  proof (cases "pointIndex s < numPoints * 3 \<and> attempts s < numPoints * 100")
    case True
    from "1.IH"[OF True] show ?thesis
      using True by (simp add: sample_loop_continue)
  next
    case False
    then show ?thesis by (simp add: sample_loop_stop)
  qed
qed

lemma estimate_loop_continue:
  "i < samples \<Longrightarrow>
   estimate_loop rnd n l m Z maxR rPeak samples i maxP0 rng0 =
   estimate_loop rnd n l m Z maxR rPeak samples (i + 1)
     (max maxP0 (estimate_sample rnd n l m Z maxR rPeak rng0)) (rng0 + 4)"
  by (subst estimate_loop.simps) (simp add: Let_def max_def)

lemma estimate_loop_stop:
  "\<not> i < samples \<Longrightarrow> estimate_loop rnd n l m Z maxR rPeak samples i maxP0 rng0 = (maxP0, rng0)"
  by (subst estimate_loop.simps) simp

lemma estimate_loop_rng:
  "snd (estimate_loop rnd n l m Z maxR rPeak samples i maxP0 rng0) = rng0 + 4 * (samples - i)"
proof (induction "samples - i" arbitrary: i maxP0 rng0)
  case 0
  then show ?case by (simp add: estimate_loop_stop)
next
  case (Suc k)
  then have "i < samples" and "k = samples - (i + 1)" by auto
  with Suc.hyps(1)[of "i + 1"] show ?case
    by (simp add: estimate_loop_continue)
qed

lemma estimate_loop_nonneg:
  "0 \<le> maxP0 \<Longrightarrow> 0 \<le> fst (estimate_loop rnd n l m Z maxR rPeak samples i maxP0 rng0)"
proof (induction "samples - i" arbitrary: i maxP0 rng0)
  case 0
  then show ?case by (simp add: estimate_loop_stop)
next
  case (Suc k)
  then have "i < samples" and "k = samples - (i + 1)" by auto
  with Suc.hyps(1)[of "i + 1" "max maxP0 (estimate_sample rnd n l m Z maxR rPeak rng0)"] Suc.prems
  show ?case
    by (simp add: estimate_loop_continue)
qed

lemma estimateMaxProbability_rng:
  "snd (estimateMaxProbability rnd rng0 n l m Z maxR) = rng0 + 20000"
  using estimate_loop_rng[of rnd n l m Z maxR "mostProbableRadius n l Z" 5000 0 0 rng0]
  by (simp add: estimateMaxProbability_def Let_def case_prod_beta)

lemma estimateMaxProbability_nonneg:
  "0 \<le> fst (estimateMaxProbability rnd rng0 n l m Z maxR)"
  using estimate_loop_nonneg[of 0 rnd n l m Z maxR "mostProbableRadius n l Z" 5000 0 rng0]
  by (simp add: estimateMaxProbability_def Let_def case_prod_beta)

lemma sample_init_inv: "loop_inv numPoints (rng0 + 20000) (sample_init rnd rng0 n l m numPoints Z)"
  using estimateMaxProbability_rng[of rnd rng0 n l m Z "maxRadialExtent n l Z"]
  by (simp add: loop_inv_def sample_init_def Let_def case_prod_beta)

lemma sample_final_inv: "loop_inv numPoints (rng0 + 20000) (sample_final rnd rng0 n l m numPoints Z)"
  unfolding sample_final_def by (rule loop_inv_loop) (rule sample_init_inv)

lemma sample_init_fields:
  "pointIndex (sample_init rnd rng0 n l m numPoints Z) = 0"
  "attempts (sample_init rnd rng0 n l m numPoints Z) = 0"
  "points (sample_init rnd rng0 n l m numPoints Z) = replicate (numPoints * 3) 0"
  "maxP (sample_init rnd rng0 n l m numPoints Z) =
     fst (estimateMaxProbability rnd rng0 n l m Z (maxRadialExtent n l Z))"
  "rng (sample_init rnd rng0 n l m numPoints Z) = rng0 + 20000"
  using estimateMaxProbability_rng[of rnd rng0 n l m Z "maxRadialExtent n l Z"]
  by (simp_all add: sample_init_def Let_def case_prod_beta)

lemma iterate_maxP_nonneg:
  "0 \<le> maxP s \<Longrightarrow> 0 \<le> maxP ((sample_attempt rnd n l m Z maxR ^^ k) s)"
  by (induction k) (simp_all add: sample_attempt_maxP_eq)

text \<open>
  C1: for every \<open>n\<close>, \<open>l\<close>, \<open>m\<close>, \<open>Z\<close>, every stream of random draws and every
  \<open>pointCount \<ge> 0\<close>, \<open>sampleOrbital\<close> returns a buffer, its length is at most
  \<open>pointCount \<times> 3\<close>, and its length is a multiple of \<open>3\<close>.
\<close>

theorem sampleOrbital_length:
  "\<exists>buf w g. sampleOrbital rnd rng0 n l m (int pointCount) Z = Inr (buf, w, g) \<and>
     length buf \<le> pointCount * 3 \<and> 3 dvd length buf"
  using sample_final_inv[of pointCount rng0 rnd n l m Z]
  by (auto simp: sampleOrbital_def Let_def loop_inv_def)

theorem sampleOrbital_length_witness:
  "\<exists>buf w g. sampleOrbital (\<lambda>k. 1 / 2) 0 1 0 0 2 1 = Inr (buf, w, g) \<and>
     length buf \<le> 6 \<and> 3 dvd length buf"
  using sampleOrbital_length [of "\<lambda>k. 1 / 2" 0 1 0 0 2 1] by simp

text \<open>
  C2: the loop of \<open>sampleOrbital\<close> ends (\<open>sample_loop\<close> is a total function) with at most
  \<open>numPoints \<times> 100\<close> attempts made, each attempt being one candidate (four draws). When
  fewer than \<open>numPoints\<close> points were accepted, the budget is spent and the result is the
  buffer cut to the accepted coordinates, returned with a warning and not as an error;
  otherwise the result is the full buffer.
\<close>

theorem sampleOrbital_bounded_attempts:
  "let s = sample_final rnd rng0 n l m numPoints Z in
     attempts s \<le> numPoints * 100 \<and>
     rng s = rng0 + 20000 + 4 * attempts s \<and>
     (pointIndex s < numPoints * 3 \<longrightarrow>
        attempts s = numPoints * 100 \<and>
        sampleOrbital rnd rng0 n l m (int numPoints) Z =
          Inr (take (pointIndex s) (points s),
               [Shortfall (pointIndex s div 3) numPoints n l m], rng s)) \<and>
     (\<not> pointIndex s < numPoints * 3 \<longrightarrow>
        sampleOrbital rnd rng0 n l m (int numPoints) Z = Inr (points s, [], rng s))"
  using sample_final_inv[of numPoints rng0 rnd n l m Z]
    sample_loop_exit[of rnd n l m Z "maxRadialExtent n l Z" numPoints "sample_init rnd rng0 n l m numPoints Z"]
  by (auto simp: sampleOrbital_def Let_def loop_inv_def sample_final_def)

subsection \<open>Runs of accepted and of rejected candidates\<close>

lemma accept_step:
  assumes "rnd (rng s + 3) * maxP s < weightedDensity n l m Z (candidate rnd (rng s) maxR)"
    and "attempts s < 1000"
  shows "pointIndex (sample_attempt rnd n l m Z maxR s) = pointIndex s + 3 \<and>
         maxP (sample_attempt rnd n l m Z maxR s) = maxP s"
  using assms by (simp add: sample_attempt_pointIndex_eq sample_attempt_maxP_eq)

lemma accepting_run:
  assumes "\<forall>j < c. rnd (rng s + 4 * j + 3) * maxP s
                     < weightedDensity n l m Z (candidate rnd (rng s + 4 * j) maxR)"
    and "attempts s + c \<le> 1000"
    and "attempts s + c \<le> numPoints * 100"
    and "pointIndex s + 3 * c \<le> numPoints * 3"
  shows "sample_loop rnd n l m Z maxR numPoints s =
           sample_loop rnd n l m Z maxR numPoints ((sample_attempt rnd n l m Z maxR ^^ c) s) \<and>
         pointIndex ((sample_attempt rnd n l m Z maxR ^^ c) s) = pointIndex s + 3 * c \<and>
         attempts ((sample_attempt rnd n l m Z maxR ^^ c) s) = attempts s + c \<and>
         maxP ((sample_attempt rnd n l m Z maxR ^^ c) s) = maxP s \<and>
         rng ((sample_attempt rnd n l m Z maxR ^^ c) s) = rng s + 4 * c"
  using assms
proof (induction c arbitrary: s)
  case 0
  then show ?case by simp
next
  case (Suc c)
  let ?f = "sample_attempt rnd n l m Z maxR"
  have test: "rnd (rng s + 3) * maxP s < weightedDensity n l m Z (candidate rnd (rng s) maxR)"
    using Suc.prems(1)[rule_format, of 0] by simp
  have a: "attempts s < 1000" using Suc.prems(2) by simp
  have st: "pointIndex (?f s) = pointIndex s + 3" "maxP (?f s) = maxP s"
    using accept_step[OF test a] by simp_all
  have cont: "sample_loop rnd n l m Z maxR numPoints s = sample_loop rnd n l m Z maxR numPoints (?f s)"
    using Suc.prems(3,4) by (intro sample_loop_continue) simp_all
  have "\<forall>j < c. rnd (rng (?f s) + 4 * j + 3) * maxP (?f s)
                     < weightedDensity n l m Z (candidate rnd (rng (?f s) + 4 * j) maxR)"
  proof (intro allI impI)
    fix j assume "j < c"
    then have "Suc j < Suc c" by simp
    from Suc.prems(1)[rule_format, OF this] show "rnd (rng (?f s) + 4 * j + 3) * maxP (?f s)
                     < weightedDensity n l m Z (candidate rnd (rng (?f s) + 4 * j) maxR)"
      by (simp add: st algebra_simps)
  qed
  from Suc.IH[OF this] Suc.prems(2,3,4) st cont show ?case
    by (simp add: funpow_swap1)
qed

lemma rejecting_run:
  assumes "\<forall>j. \<not> rnd (rng s + 4 * j + 3) * maxP s
                  < weightedDensity n l m Z (candidate rnd (rng s + 4 * j) maxR)"
    and "numPoints \<le> pointIndex s \<or> numPoints \<le> 10"
    and "pointIndex s < numPoints * 3"
    and "attempts s \<le> numPoints * 100"
  shows "sample_loop rnd n l m Z maxR numPoints s =
         s\<lparr>attempts := numPoints * 100, rng := rng s + 4 * (numPoints * 100 - attempts s)\<rparr>"
  using assms
proof (induction "numPoints * 100 - attempts s" arbitrary: s)
  case 0
  then have "attempts s = numPoints * 100" by simp
  then show ?case by (simp add: sample_loop_stop)
next
  case (Suc d)
  let ?s' = "s\<lparr>attempts := attempts s + 1, rng := rng s + 4\<rparr>"
  from Suc.hyps(2) have lt: "attempts s < numPoints * 100" by simp
  have nodouble: "\<not> (attempts s + 1 > 1000 \<and> real (pointIndex s) < real (attempts s + 1) * 0.01)"
  proof
    assume a: "attempts s + 1 > 1000 \<and> real (pointIndex s) < real (attempts s + 1) * 0.01"
    then have "real (pointIndex s * 100) < real (attempts s + 1)" by simp
    then have "pointIndex s * 100 < attempts s + 1" by (simp only: of_nat_less_iff)
    with lt a Suc.prems(2) show False by auto
  qed
  have rej: "\<not> rnd (rng s + 3) * maxP s < weightedDensity n l m Z (candidate rnd (rng s) maxR)"
    using Suc.prems(1)[rule_format, of 0] by simp
  have step: "sample_attempt rnd n l m Z maxR s = ?s'"
    using rej nodouble by (rule sample_attempt_reject)
  have "\<forall>j. \<not> rnd (rng ?s' + 4 * j + 3) * maxP ?s'
                  < weightedDensity n l m Z (candidate rnd (rng ?s' + 4 * j) maxR)"
  proof
    fix j
    show "\<not> rnd (rng ?s' + 4 * j + 3) * maxP ?s'
                  < weightedDensity n l m Z (candidate rnd (rng ?s' + 4 * j) maxR)"
      using Suc.prems(1)[rule_format, of "Suc j"] by (simp add: algebra_simps)
  qed
  moreover have "d = numPoints * 100 - attempts ?s'" using Suc.hyps(2) by simp
  ultimately have "sample_loop rnd n l m Z maxR numPoints ?s' =
         ?s'\<lparr>attempts := numPoints * 100, rng := rng ?s' + 4 * (numPoints * 100 - attempts ?s')\<rparr>"
    using Suc.hyps(1)[of ?s'] Suc.prems(2,3) lt by simp
  moreover have "sample_loop rnd n l m Z maxR numPoints s = sample_loop rnd n l m Z maxR numPoints ?s'"
    using sample_loop_continue[OF Suc.prems(3) lt] step by simp
  ultimately show ?case using lt by simp
qed

lemma rejecting_iterate:
  assumes "\<forall>j. \<not> rnd (rng s + 4 * j + 3) * maxP s
                  < weightedDensity n l m Z (candidate rnd (rng s + 4 * j) maxR)"
    and "numPoints \<le> pointIndex s \<or> numPoints \<le> 10"
    and "attempts s + d \<le> numPoints * 100"
  shows "(sample_attempt rnd n l m Z maxR ^^ d) s =
         s\<lparr>attempts := attempts s + d, rng := rng s + 4 * d\<rparr>"
  using assms(3)
proof (induction d)
  case 0
  then show ?case by simp
next
  case (Suc d)
  let ?sd = "s\<lparr>attempts := attempts s + d, rng := rng s + 4 * d\<rparr>"
  have sd: "(sample_attempt rnd n l m Z maxR ^^ d) s = ?sd"
    using Suc by simp
  have rej: "\<not> rnd (rng ?sd + 3) * maxP ?sd
                < weightedDensity n l m Z (candidate rnd (rng ?sd) maxR)"
    using assms(1)[rule_format, of d] by simp
  have nodouble: "\<not> (attempts ?sd + 1 > 1000 \<and> real (pointIndex ?sd) < real (attempts ?sd + 1) * 0.01)"
  proof
    assume a: "attempts ?sd + 1 > 1000 \<and> real (pointIndex ?sd) < real (attempts ?sd + 1) * 0.01"
    then have "real (pointIndex ?sd * 100) < real (attempts ?sd + 1)" by simp
    then have "pointIndex ?sd * 100 < attempts ?sd + 1" by (simp only: of_nat_less_iff)
    with a Suc.prems assms(2) show False by auto
  qed
  have "sample_attempt rnd n l m Z maxR ?sd = ?sd\<lparr>attempts := attempts ?sd + 1, rng := rng ?sd + 4\<rparr>"
    using rej nodouble by (rule sample_attempt_reject)
  then show ?case by (simp add: sd)
qed

subsection \<open>The 1s orbital\<close>

lemma legendrePolynomial_00: "legendrePolynomial 0 0 x = 1"
  by (simp add: legendrePolynomial_def)

lemma sphericalHarmonic_00: "fst (sphericalHarmonic 0 0 theta phi) = sqrt (1 / (4 * pi))"
  by (simp add: sphericalHarmonic_def sphericalHarmonicNormalization_def factorial_def
      legendrePolynomial_00 Let_def)

lemma regroup: "(2 * a) * (2 * a) * b * b = 4 * (a * a) * (b * (b :: real))"
  by (simp add: algebra_simps)

lemma density_1s: "probabilityDensity 1 0 0 r theta phi 1 = exp (- 2 * r) / pi"
proof -
  have e: "exp (- r) * exp (- r) = exp (- 2 * r)"
    by (simp add: mult_exp_exp)
  have y: "sqrt (1 / (4 * pi)) * sqrt (1 / (4 * pi)) = 1 / (4 * pi)"
    by simp
  have "probabilityDensity 1 0 0 r theta phi 1 =
          (2 * exp (- r)) * (2 * exp (- r)) * sqrt (1 / (4 * pi)) * sqrt (1 / (4 * pi))"
    by (simp only: probabilityDensity_def radial_1s sphericalHarmonic_00 Let_def fst_conv)
  also have "\<dots> = 4 * (exp (- r) * exp (- r)) * (sqrt (1 / (4 * pi)) * sqrt (1 / (4 * pi)))"
    by (rule regroup)
  also have "\<dots> = exp (- 2 * r) / pi"
    by (simp only: e y) simp
  finally show ?thesis .
qed

lemma weightedDensity_1s:
  "weightedDensity 1 0 0 1 (r, theta, phi) = exp (- 2 * r) / pi * (r * r * sin theta)"
  by (simp add: weightedDensity_def density_1s Let_def)

lemma maxRadialExtent_1s: "maxRadialExtent 1 0 1 = 4"
  by (simp add: maxRadialExtent_def BOHR_RADIUS_def)

lemma mostProbableRadius_1s: "mostProbableRadius 1 0 1 = 1"
  by (simp add: mostProbableRadius_def BOHR_RADIUS_def)

lemma estimate_loop_const:
  "\<forall>j < samples - i. estimate_sample rnd n l m Z maxR rPeak (rng0 + 4 * j) = w \<Longrightarrow>
   fst (estimate_loop rnd n l m Z maxR rPeak samples i maxP0 rng0) =
     (if i < samples then max maxP0 w else maxP0)"
proof (induction "samples - i" arbitrary: i maxP0 rng0)
  case 0
  then show ?case by (simp add: estimate_loop_stop)
next
  case (Suc k)
  then have lt: "i < samples" and k: "k = samples - (i + 1)" by auto
  have w0: "estimate_sample rnd n l m Z maxR rPeak rng0 = w"
    using Suc.prems lt by (metis add.right_neutral mult_0_right zero_less_diff)
  have "\<forall>j < samples - (i + 1). estimate_sample rnd n l m Z maxR rPeak (rng0 + 4 + 4 * j) = w"
  proof (intro allI impI)
    fix j assume "j < samples - (i + 1)"
    then have "Suc j < samples - i" by simp
    from Suc.prems[rule_format, OF this] show "estimate_sample rnd n l m Z maxR rPeak (rng0 + 4 + 4 * j) = w"
      by (simp add: algebra_simps)
  qed
  from Suc.hyps(1)[OF k this, of "max maxP0 w"] show ?case
    using lt by (simp add: estimate_loop_continue w0)
qed

lemma powr_third_cube: "0 < a \<Longrightarrow> (a * a * a) powr (1 / 3) = (a :: real)"
proof -
  assume a: "0 < a"
  then have "a * a * a = a powr 3" by (simp add: power3_eq_cube)
  then have "(a * a * a) powr (1 / 3) = (a powr 3) powr (1 / 3)" by simp
  also have "\<dots> = a powr (3 * (1 / 3))" by (rule powr_powr)
  finally show ?thesis using a by simp
qed

lemma powr_third_64: "(1 / 64) powr (1 / 3) = (1 / 4 :: real)"
  using powr_third_cube[of "1 / 4"] by simp

lemma powr_third_8: "(1 / 8) powr (1 / 3) = (1 / 2 :: real)"
  using powr_third_cube[of "1 / 2"] by simp

subsection \<open>The run on \<open>ceiling_rnd\<close>\<close>

lemma ceiling_rnd_estimate:
  assumes "j < 5000"
  shows "estimate_sample ceiling_rnd 1 0 0 1 4 1 (0 + 4 * j) = 9 * exp (- 6) / pi"
proof -
  have m: "(4 * j) mod 4 = 0" "(4 * j + 1) mod 4 = 1" "(4 * j + 2) mod 4 = 2" "(4 * j + 3) mod 4 = 3"
    by presburger+
  have lt: "4 * j < 20000" "4 * j + 1 < 20000" "4 * j + 2 < 20000" "4 * j + 3 < 20000"
    using assms by simp_all
  have d: "ceiling_rnd (4 * j) = 9 / 10" "ceiling_rnd (4 * j + 1) = 3 / 4"
    "ceiling_rnd (4 * j + 2) = 1 / 2" "ceiling_rnd (4 * j + 3) = 0"
    using m lt by (simp_all add: ceiling_rnd_def)
  show ?thesis
    unfolding estimate_sample_def Let_def add_0 d by (simp add: density_1s)
qed

lemma ceiling_rnd_maxP: "estimateMaxProbability ceiling_rnd 0 1 0 0 1 4 = (27 / 2 * exp (- 6) / pi, 20000)"
proof -
  have "fst (estimate_loop ceiling_rnd 1 0 0 1 4 1 5000 0 0 0) = max 0 (9 * exp (- 6) / pi)"
    using estimate_loop_const[of 5000 0 ceiling_rnd 1 0 0 1 4 1 0 "9 * exp (- 6) / pi" 0]
      ceiling_rnd_estimate by simp
  moreover have "snd (estimate_loop ceiling_rnd 1 0 0 1 4 1 5000 0 0 0) = 20000"
    by (simp add: estimate_loop_rng)
  ultimately show ?thesis
    by (simp add: estimateMaxProbability_def mostProbableRadius_1s Let_def case_prod_beta max_def
        prod_eq_iff)
qed

lemma ceiling_rnd_candidate: "candidate ceiling_rnd (20000 + 4 * j) 4 = (1, pi / 2, 0)"
proof -
  have m: "(20000 + 4 * j) mod 4 = 0" "(20000 + 4 * j + 1) mod 4 = 1" "(20000 + 4 * j + 2) mod 4 = 2"
    by presburger+
  have d: "ceiling_rnd (20000 + 4 * j) = 1 / 64" "ceiling_rnd (20000 + 4 * j + 1) = 1 / 2"
    "ceiling_rnd (20000 + 4 * j + 2) = 0"
    using m by (simp_all add: ceiling_rnd_def)
  show ?thesis
    unfolding candidate_def Let_def d by (simp add: powr_third_64)
qed

lemma exp4_gt: "27 / 2 < exp (4 :: real)"
proof -
  have "2 \<le> exp (1 :: real)" using exp_ge_add_one_self[of "1 :: real"] by simp
  then have "2 ^ 4 \<le> exp (1 :: real) ^ 4" by (rule power_mono) simp
  moreover have "exp (1 :: real) ^ 4 = exp 4" by (simp add: exp_of_nat_mult[symmetric])
  ultimately show ?thesis by simp
qed

lemma estimate_below_candidate:
  "27 / 2 * exp (- 6) / pi < weightedDensity 1 0 0 1 (1, pi / 2, 0)"
proof -
  have "exp (- 6 :: real) * exp 4 = exp (- 2)" by (simp add: mult_exp_exp)
  moreover have "27 / 2 * exp (- 6 :: real) < exp (- 6) * exp 4"
    using exp4_gt by (simp add: mult.commute)
  ultimately have "27 / 2 * exp (- 6 :: real) < exp (- 2)" by simp
  then have "27 / 2 * exp (- 6 :: real) / pi < exp (- 2) / pi"
    by (rule divide_strict_right_mono) simp
  then show ?thesis by (simp add: weightedDensity_1s)
qed

lemma ceiling_init:
  "maxP (sample_init ceiling_rnd 0 1 0 0 numPoints 1) = 27 / 2 * exp (- 6) / pi"
  "rng (sample_init ceiling_rnd 0 1 0 0 numPoints 1) = 20000"
  by (simp_all add: sample_init_fields maxRadialExtent_1s ceiling_rnd_maxP)

lemma ceiling_rnd_accept: "ceiling_rnd 20003 = 99 / 100"
  by (simp add: ceiling_rnd_def)

lemma shrink: "0 \<le> c \<Longrightarrow> 99 / 100 * c \<le> (c :: real)"
  by simp

lemma ceiling_test:
  "ceiling_rnd 20003 * (27 / 2 * exp (- 6) / pi) < weightedDensity 1 0 0 1 (1, pi / 2, 0)"
proof -
  have "0 \<le> 27 / 2 * exp (- 6 :: real) / pi" by simp
  then have "99 / 100 * (27 / 2 * exp (- 6 :: real) / pi) \<le> 27 / 2 * exp (- 6) / pi"
    by (rule shrink)
  also note estimate_below_candidate
  finally show ?thesis unfolding ceiling_rnd_accept .
qed

lemma sphericalToCartesian_x_axis: "sphericalToCartesian r (pi / 2) 0 = (r, 0, 0)"
  by (simp add: sphericalToCartesian_def)

lemma ceiling_first_attempt:
  "sample_attempt ceiling_rnd 1 0 0 1 4 (sample_init ceiling_rnd 0 1 0 0 1 1) =
     \<lparr>points = [1, 0, 0], pointIndex = 3, attempts = 1, maxP = 27 / 2 * exp (- 6) / pi, rng = 20004\<rparr>"
proof -
  have s0: "sample_init ceiling_rnd 0 1 0 0 1 1 =
      \<lparr>points = [0, 0, 0], pointIndex = 0, attempts = 0, maxP = 27 / 2 * exp (- 6) / pi, rng = 20000\<rparr>"
    by (simp add: sample_init_def maxRadialExtent_1s ceiling_rnd_maxP Let_def numeral_3_eq_3)
  have c: "candidate ceiling_rnd 20000 4 = (1, pi / 2, 0)"
    using ceiling_rnd_candidate[of 0] by simp
  show ?thesis
    unfolding s0 sample_attempt_def Let_def
    using ceiling_test by (simp add: c sphericalToCartesian_x_axis)
qed

lemma ceiling_final:
  "sample_final ceiling_rnd 0 1 0 0 1 1 =
     \<lparr>points = [1, 0, 0], pointIndex = 3, attempts = 1, maxP = 27 / 2 * exp (- 6) / pi, rng = 20004\<rparr>"
proof -
  have "sample_final ceiling_rnd 0 1 0 0 1 1 =
        sample_loop ceiling_rnd 1 0 0 1 4 1
          (sample_attempt ceiling_rnd 1 0 0 1 4 (sample_init ceiling_rnd 0 1 0 0 1 1))"
    unfolding sample_final_def maxRadialExtent_1s
    by (rule sample_loop_continue) (simp_all add: sample_init_fields)
  also have "\<dots> = sample_attempt ceiling_rnd 1 0 0 1 4 (sample_init ceiling_rnd 0 1 0 0 1 1)"
    unfolding ceiling_first_attempt by (rule sample_loop_stop) simp
  finally show ?thesis unfolding ceiling_first_attempt .
qed

lemma ceiling_result: "sampleOrbital ceiling_rnd 0 1 0 0 1 1 = Inr ([1, 0, 0], [], 20004)"
proof -
  have np: "nat 1 = (1 :: nat)" by simp
  show ?thesis
    unfolding sampleOrbital_def Let_def np ceiling_final by simp
qed

subsection \<open>The run on \<open>slow_rnd\<close>\<close>

lemma slow_rnd_estimate:
  assumes "j < 5000"
  shows "estimate_sample slow_rnd 1 0 0 1 4 1 (0 + 4 * j) = exp (- 2) / pi"
proof -
  have lt: "4 * j < 20000" "4 * j + 1 < 20000" "4 * j + 2 < 20000" "4 * j + 3 < 20000"
    using assms by simp_all
  have d: "slow_rnd (4 * j) = 1 / 2" "slow_rnd (4 * j + 1) = 1 / 2"
    "slow_rnd (4 * j + 2) = 1 / 2" "slow_rnd (4 * j + 3) = 1 / 2"
    using lt by (simp_all add: slow_rnd_def)
  show ?thesis
    unfolding estimate_sample_def Let_def add_0 d by (simp add: density_1s)
qed

lemma slow_rnd_maxP: "estimateMaxProbability slow_rnd 0 1 0 0 1 4 = (3 / 2 * exp (- 2) / pi, 20000)"
proof -
  have "fst (estimate_loop slow_rnd 1 0 0 1 4 1 5000 0 0 0) = max 0 (exp (- 2) / pi)"
    using estimate_loop_const[of 5000 0 slow_rnd 1 0 0 1 4 1 0 "exp (- 2) / pi" 0]
      slow_rnd_estimate by simp
  moreover have "snd (estimate_loop slow_rnd 1 0 0 1 4 1 5000 0 0 0) = 20000"
    by (simp add: estimate_loop_rng)
  ultimately show ?thesis
    by (simp add: estimateMaxProbability_def mostProbableRadius_1s Let_def case_prod_beta max_def
        prod_eq_iff)
qed

lemma slow_init:
  "maxP (sample_init slow_rnd 0 1 0 0 numPoints 1) = 3 / 2 * exp (- 2) / pi"
  "rng (sample_init slow_rnd 0 1 0 0 numPoints 1) = 20000"
  by (simp_all add: sample_init_fields maxRadialExtent_1s slow_rnd_maxP)

text \<open>The first four candidates are accepted.\<close>

lemma slow_rnd_accepting:
  assumes "j < 4"
  shows "slow_rnd (20000 + 4 * j + 3) * c
           < weightedDensity 1 0 0 1 (candidate slow_rnd (20000 + 4 * j) 4)"
proof -
  have m: "(20000 + 4 * j) mod 4 = 0" "(20000 + 4 * j + 1) mod 4 = 1"
    "(20000 + 4 * j + 2) mod 4 = 2" "(20000 + 4 * j + 3) mod 4 = 3"
    by presburger+
  have lt: "20000 + 4 * j < 20016" "20000 + 4 * j + 1 < 20016"
    "20000 + 4 * j + 2 < 20016" "20000 + 4 * j + 3 < 20016"
    using assms by simp_all
  have d: "slow_rnd (20000 + 4 * j) = 1 / 8" "slow_rnd (20000 + 4 * j + 1) = 1 / 2"
    "slow_rnd (20000 + 4 * j + 2) = 0" "slow_rnd (20000 + 4 * j + 3) = 0"
    using m lt by (simp_all add: slow_rnd_def)
  have c: "candidate slow_rnd (20000 + 4 * j) 4 = (2, pi / 2, 0)"
    unfolding candidate_def Let_def d by (simp add: powr_third_8)
  show ?thesis
    unfolding c d by (simp add: weightedDensity_1s)
qed

text \<open>Every later candidate is the origin and is rejected.\<close>

lemma slow_rnd_rejecting:
  assumes "0 \<le> c"
  shows "\<not> slow_rnd (20016 + 4 * j + 3) * c
           < weightedDensity 1 0 0 1 (candidate slow_rnd (20016 + 4 * j) 4)"
proof -
  have d: "slow_rnd (20016 + 4 * j) = 0" "slow_rnd (20016 + 4 * j + 1) = 0"
    "slow_rnd (20016 + 4 * j + 2) = 0" "slow_rnd (20016 + 4 * j + 3) = 0"
    by (simp_all add: slow_rnd_def)
  have c: "candidate slow_rnd (20016 + 4 * j) 4 = (0, pi, 0)"
    unfolding candidate_def Let_def d by simp
  show ?thesis
    unfolding c d by (simp add: weightedDensity_1s)
qed

lemma slow_first_four:
  "sample_loop slow_rnd 1 0 0 1 4 11 (sample_init slow_rnd 0 1 0 0 11 1) =
     sample_loop slow_rnd 1 0 0 1 4 11
       ((sample_attempt slow_rnd 1 0 0 1 4 ^^ 4) (sample_init slow_rnd 0 1 0 0 11 1))"
  "pointIndex ((sample_attempt slow_rnd 1 0 0 1 4 ^^ 4) (sample_init slow_rnd 0 1 0 0 11 1)) = 12"
  "attempts ((sample_attempt slow_rnd 1 0 0 1 4 ^^ 4) (sample_init slow_rnd 0 1 0 0 11 1)) = 4"
  "maxP ((sample_attempt slow_rnd 1 0 0 1 4 ^^ 4) (sample_init slow_rnd 0 1 0 0 11 1))
     = 3 / 2 * exp (- 2) / pi"
  "rng ((sample_attempt slow_rnd 1 0 0 1 4 ^^ 4) (sample_init slow_rnd 0 1 0 0 11 1)) = 20016"
proof -
  let ?s0 = "sample_init slow_rnd 0 1 0 0 11 1"
  let ?s4 = "(sample_attempt slow_rnd 1 0 0 1 4 ^^ 4) ?s0"
  have acc: "\<forall>j < 4. slow_rnd (rng ?s0 + 4 * j + 3) * maxP ?s0
                     < weightedDensity 1 0 0 1 (candidate slow_rnd (rng ?s0 + 4 * j) 4)"
    unfolding slow_init by (intro allI impI slow_rnd_accepting)
  have A: "sample_loop slow_rnd 1 0 0 1 4 11 ?s0 = sample_loop slow_rnd 1 0 0 1 4 11 ?s4 \<and>
         pointIndex ?s4 = pointIndex ?s0 + 3 * 4 \<and>
         attempts ?s4 = attempts ?s0 + 4 \<and>
         maxP ?s4 = maxP ?s0 \<and>
         rng ?s4 = rng ?s0 + 4 * 4"
    by (rule accepting_run[OF acc]) (simp_all add: sample_init_fields)
  then show "sample_loop slow_rnd 1 0 0 1 4 11 ?s0 = sample_loop slow_rnd 1 0 0 1 4 11 ?s4"
    "pointIndex ?s4 = 12" "attempts ?s4 = 4" "maxP ?s4 = 3 / 2 * exp (- 2) / pi"
    "rng ?s4 = 20016"
    by (simp_all add: sample_init_fields(1,2) slow_init)
qed

lemma slow_rest_rejected:
  "\<forall>j. \<not> slow_rnd (rng ((sample_attempt slow_rnd 1 0 0 1 4 ^^ 4) (sample_init slow_rnd 0 1 0 0 11 1))
                      + 4 * j + 3)
            * maxP ((sample_attempt slow_rnd 1 0 0 1 4 ^^ 4) (sample_init slow_rnd 0 1 0 0 11 1))
          < weightedDensity 1 0 0 1
              (candidate slow_rnd
                 (rng ((sample_attempt slow_rnd 1 0 0 1 4 ^^ 4) (sample_init slow_rnd 0 1 0 0 11 1))
                    + 4 * j) 4)"
  unfolding slow_first_four by (intro allI slow_rnd_rejecting) simp

lemma slow_final:
  "pointIndex (sample_final slow_rnd 0 1 0 0 11 1) = 12 \<and>
   attempts (sample_final slow_rnd 0 1 0 0 11 1) = 1100 \<and>
   maxP (sample_final slow_rnd 0 1 0 0 11 1) = 3 / 2 * exp (- 2) / pi \<and>
   rng (sample_final slow_rnd 0 1 0 0 11 1) = 24400"
proof -
  let ?s0 = "sample_init slow_rnd 0 1 0 0 11 1"
  let ?s4 = "(sample_attempt slow_rnd 1 0 0 1 4 ^^ 4) ?s0"
  have B: "sample_loop slow_rnd 1 0 0 1 4 11 ?s4 =
         ?s4\<lparr>attempts := 11 * 100, rng := rng ?s4 + 4 * (11 * 100 - attempts ?s4)\<rparr>"
    by (rule rejecting_run[OF slow_rest_rejected]) (simp_all add: slow_first_four)
  have "sample_final slow_rnd 0 1 0 0 11 1 =
         ?s4\<lparr>attempts := 11 * 100, rng := rng ?s4 + 4 * (11 * 100 - attempts ?s4)\<rparr>"
    unfolding sample_final_def maxRadialExtent_1s using slow_first_four(1) B by simp
  then show ?thesis
    by (simp add: slow_first_four)
qed

lemma slow_after_1001:
  "pointIndex ((sample_attempt slow_rnd 1 0 0 1 4 ^^ 1001) (sample_init slow_rnd 0 1 0 0 11 1)) = 12 \<and>
   attempts ((sample_attempt slow_rnd 1 0 0 1 4 ^^ 1001) (sample_init slow_rnd 0 1 0 0 11 1)) = 1001 \<and>
   maxP ((sample_attempt slow_rnd 1 0 0 1 4 ^^ 1001) (sample_init slow_rnd 0 1 0 0 11 1))
     = 3 / 2 * exp (- 2) / pi"
proof -
  let ?f = "sample_attempt slow_rnd 1 0 0 1 4"
  let ?s0 = "sample_init slow_rnd 0 1 0 0 11 1"
  let ?s4 = "(?f ^^ 4) ?s0"
  have B: "(?f ^^ 997) ?s4 = ?s4\<lparr>attempts := attempts ?s4 + 997, rng := rng ?s4 + 4 * 997\<rparr>"
    by (rule rejecting_iterate[OF slow_rest_rejected, of 11]) (simp_all add: slow_first_four)
  have "(?f ^^ 1001) ?s0 = (?f ^^ (997 + 4)) ?s0" by simp
  also have "\<dots> = (?f ^^ 997) ?s4" by (simp only: funpow_add o_apply)
  finally have "(?f ^^ 1001) ?s0 = ?s4\<lparr>attempts := attempts ?s4 + 997, rng := rng ?s4 + 4 * 997\<rparr>"
    using B by simp
  then show ?thesis by (simp add: slow_first_four)
qed

text \<open>The run on \<open>slow_rnd\<close> spends its budget of 1100 attempts and returns the four
  accepted points with a warning.\<close>

theorem sampleOrbital_bounded_attempts_witness:
  "attempts (sample_final slow_rnd 0 1 0 0 11 1) = 11 * 100 \<and>
   sampleOrbital slow_rnd 0 1 0 0 11 1 =
     Inr (take 12 (points (sample_final slow_rnd 0 1 0 0 11 1)), [Shortfall 4 11 1 0 0], 24400)"
proof -
  have p: "pointIndex (sample_final slow_rnd 0 1 0 0 11 1) < 11 * 3"
    using slow_final by simp
  have "attempts (sample_final slow_rnd 0 1 0 0 11 1) = 11 * 100 \<and>
        sampleOrbital slow_rnd 0 1 0 0 (int 11) 1 =
          Inr (take (pointIndex (sample_final slow_rnd 0 1 0 0 11 1))
                 (points (sample_final slow_rnd 0 1 0 0 11 1)),
               [Shortfall (pointIndex (sample_final slow_rnd 0 1 0 0 11 1) div 3) 11 1 0 0],
               rng (sample_final slow_rnd 0 1 0 0 11 1))"
    using sampleOrbital_bounded_attempts [of slow_rnd 0 1 0 0 11 1] p
    unfolding Let_def by blast
  then show ?thesis using slow_final by simp
qed

section \<open>The rejection test\<close>

text \<open>
  C3 (as amended): at every attempt of a run of \<open>sampleOrbital\<close> the candidate
  \<open>(r, theta, phi)\<close> is appended to the buffer exactly when the attempt's acceptance draw
  times the ceiling \<open>maxP\<close> in effect is below the weighted density
  \<open>P \<cdot> r\<^sup>2 \<cdot> sin theta\<close>; a candidate whose weighted density is \<open>0\<close> is never accepted
  (the draw being non-negative). Nothing bounds the weighted density of an accepted
  point by the ceiling.
\<close>

theorem accepted_iff_draw_below_weight:
  assumes "s = (sample_attempt rnd n l m Z (maxRadialExtent n l Z) ^^ k)
                 (sample_init rnd rng0 n l m numPoints Z)"
    and "candidate rnd (rng s) (maxRadialExtent n l Z) = (r, theta, phi)"
    and "sphericalToCartesian r theta phi = (x, y, z)"
    and "s' = sample_attempt rnd n l m Z (maxRadialExtent n l Z) s"
  shows "(rnd (rng s + 3) * maxP s < weightedDensity n l m Z (r, theta, phi) \<longrightarrow>
            points s' = (points s)[pointIndex s := x, pointIndex s + 1 := y, pointIndex s + 2 := z] \<and>
            pointIndex s' = pointIndex s + 3) \<and>
         (\<not> rnd (rng s + 3) * maxP s < weightedDensity n l m Z (r, theta, phi) \<longrightarrow>
            points s' = points s \<and> pointIndex s' = pointIndex s) \<and>
         (weightedDensity n l m Z (r, theta, phi) = 0 \<and> 0 \<le> rnd (rng s + 3) \<longrightarrow>
            points s' = points s \<and> pointIndex s' = pointIndex s)"
proof -
  have "0 \<le> maxP (sample_init rnd rng0 n l m numPoints Z)"
    by (simp add: sample_init_fields estimateMaxProbability_nonneg)
  then have "0 \<le> maxP s"
    unfolding assms(1) by (rule iterate_maxP_nonneg)
  then have "0 \<le> rnd (rng s + 3) \<longrightarrow> \<not> rnd (rng s + 3) * maxP s < 0"
    by (simp add: not_less)
  then show ?thesis
    by (auto simp: assms(2,3,4) sample_attempt_points_eq sample_attempt_pointIndex_eq)
qed

theorem accepted_iff_draw_below_weight_witness:
  "points (sample_attempt ceiling_rnd 1 0 0 1 (maxRadialExtent 1 0 1)
             (sample_init ceiling_rnd 0 1 0 0 1 1)) = [1, 0, 0] \<and>
   pointIndex (sample_attempt ceiling_rnd 1 0 0 1 (maxRadialExtent 1 0 1)
             (sample_init ceiling_rnd 0 1 0 0 1 1)) = 3"
proof -
  let ?s = "sample_init ceiling_rnd 0 1 0 0 1 1"
  have s: "?s = (sample_attempt ceiling_rnd 1 0 0 1 (maxRadialExtent 1 0 1) ^^ 0) ?s" by simp
  have c: "candidate ceiling_rnd (rng ?s) (maxRadialExtent 1 0 1) = (1, pi / 2, 0)"
    unfolding ceiling_init maxRadialExtent_1s using ceiling_rnd_candidate[of 0] by simp
  have t: "ceiling_rnd (rng ?s + 3) * maxP ?s < weightedDensity 1 0 0 1 (1, pi / 2, 0)"
    unfolding ceiling_init using ceiling_test by simp
  have p: "points ?s = [0, 0, 0]" "pointIndex ?s = 0"
    unfolding sample_init_fields by (simp_all add: numeral_3_eq_3)
  have "points (sample_attempt ceiling_rnd 1 0 0 1 (maxRadialExtent 1 0 1) ?s) =
          (points ?s)[pointIndex ?s := 1, pointIndex ?s + 1 := 0, pointIndex ?s + 2 := 0] \<and>
        pointIndex (sample_attempt ceiling_rnd 1 0 0 1 (maxRadialExtent 1 0 1) ?s) = pointIndex ?s + 3"
    using accepted_iff_draw_below_weight [OF s c sphericalToCartesian_x_axis refl] t
    by blast
  then show ?thesis unfolding p by simp
qed

text \<open>
  The last part of C3 as stated, that no accepted point's weighted density exceeds the
  ceiling used for its run, fails: on \<open>ceiling_rnd\<close> the ceiling of the run is
  \<open>27/2 \<cdot> exp (-6) / \<pi>\<close> from first to last, and the one point returned, \<open>(1, 0, 0)\<close>, has
  a weighted density above it.
\<close>

theorem ceiling_exceeded:
  "sampleOrbital ceiling_rnd 0 1 0 0 1 1 = Inr ([1, 0, 0], [], 20004) \<and>
   candidate ceiling_rnd 20000 (maxRadialExtent 1 0 1) = (1, pi / 2, 0) \<and>
   sphericalToCartesian 1 (pi / 2) 0 = (1, 0, 0) \<and>
   maxP (sample_init ceiling_rnd 0 1 0 0 1 1) = 27 / 2 * exp (- 6) / pi \<and>
   maxP (sample_final ceiling_rnd 0 1 0 0 1 1) = 27 / 2 * exp (- 6) / pi \<and>
   27 / 2 * exp (- 6) / pi < weightedDensity 1 0 0 1 (1, pi / 2, 0)"
proof -
  have c: "candidate ceiling_rnd 20000 (maxRadialExtent 1 0 1) = (1, pi / 2, 0)"
    using ceiling_rnd_candidate[of 0] by (simp add: maxRadialExtent_1s)
  have f: "maxP (sample_final ceiling_rnd 0 1 0 0 1 1) = 27 / 2 * exp (- 6) / pi"
    unfolding ceiling_final by simp
  show ?thesis
    using ceiling_result c sphericalToCartesian_x_axis[of 1] ceiling_init(1)[of 1] f
      estimate_below_candidate
    by (intro conjI)
qed

section \<open>The adaptive doubling of the ceiling\<close>

text \<open>
  C6: the claim has \<open>maxP\<close> doubled whenever more than 1000 attempts were made and fewer
  than 1% of them were accepted. The code compares \<open>pointIndex\<close>, which advances by three
  per accepted point, with \<open>attempts \<cdot> 0.01\<close> (\<open>sample_attempt_maxP_eq\<close>). On \<open>slow_rnd\<close>
  with \<open>numPoints = 11\<close>, after attempt 1001 four points are accepted (under 0.4%) and
  \<open>maxP\<close> is what the estimate returned; it still is when the run ends after 1100
  attempts.
\<close>

theorem no_doubling_below_one_percent:
  "attempts ((sample_attempt slow_rnd 1 0 0 1 (maxRadialExtent 1 0 1) ^^ 1001)
               (sample_init slow_rnd 0 1 0 0 11 1)) = 1001 \<and>
   pointIndex ((sample_attempt slow_rnd 1 0 0 1 (maxRadialExtent 1 0 1) ^^ 1001)
               (sample_init slow_rnd 0 1 0 0 11 1)) = 12 \<and>
   maxP ((sample_attempt slow_rnd 1 0 0 1 (maxRadialExtent 1 0 1) ^^ 1001)
               (sample_init slow_rnd 0 1 0 0 11 1)) = 3 / 2 * exp (- 2) / pi \<and>
   maxP (sample_init slow_rnd 0 1 0 0 11 1) = 3 / 2 * exp (- 2) / pi \<and>
   attempts (sample_final slow_rnd 0 1 0 0 11 1) = 1100 \<and>
   pointIndex (sample_final slow_rnd 0 1 0 0 11 1) = 12 \<and>
   maxP (sample_final slow_rnd 0 1 0 0 11 1) = 3 / 2 * exp (- 2) / pi"
  unfolding maxRadialExtent_1s
  using slow_final slow_after_1001 by (simp add: slow_init)

section \<open>The max-probability cache\<close>

lemma getMaxProbability_hit:
  "maxProbabilityCache st (n, l, m, Z) = Some v \<Longrightarrow> getMaxProbability rnd n l m Z st = (v, st)"
  by (simp add: getMaxProbability_def Let_def)

lemma getMaxProbability_stores:
  "getMaxProbability rnd n l m Z st = (v, st1) \<Longrightarrow> maxProbabilityCache st1 (n, l, m, Z) = Some v"
  by (auto simp: getMaxProbability_def Let_def case_prod_beta split: if_splits)

lemma getMaxProbability_keeps:
  "maxProbabilityCache st key = Some w \<Longrightarrow>
   maxProbabilityCache (snd (getMaxProbability rnd n l m Z st)) key = Some w"
  by (auto simp: getMaxProbability_def Let_def case_prod_beta)

lemma exec_calls_keeps:
  "Clear \<notin> set cs \<Longrightarrow> maxProbabilityCache st key = Some w \<Longrightarrow>
   maxProbabilityCache (exec_calls rnd cs st) key = Some w"
proof (induction cs arbitrary: st)
  case Nil
  then show ?case by simp
next
  case (Cons c cs)
  then show ?case
    by (cases c) (auto intro: getMaxProbability_keeps)
qed

text \<open>
  C9: once \<open>getMaxProbability\<close> has been called with a key \<open>(n, l, m, Z)\<close> and has
  returned \<open>v\<close>, a later call with the same key, after any calls of \<open>getMaxProbability\<close>
  in between, returns \<open>v\<close> again and leaves the cache and the number of random draws as
  they were (nothing is recomputed); no call of \<open>getMaxProbability\<close> removes or changes
  an entry, and \<open>clearProbabilityCache\<close> empties the cache.
\<close>

theorem cache_computed_once:
  assumes "getMaxProbability rnd n l m Z st = (v, st1)" and "Clear \<notin> set cs"
  shows "getMaxProbability rnd n l m Z (exec_calls rnd cs st1) = (v, exec_calls rnd cs st1) \<and>
         (\<forall>key w. maxProbabilityCache st1 key = Some w \<longrightarrow>
                  maxProbabilityCache (exec_calls rnd cs st1) key = Some w) \<and>
         maxProbabilityCache (clearProbabilityCache st1) = Map.empty"
proof -
  have "maxProbabilityCache st1 (n, l, m, Z) = Some v"
    using assms(1) by (rule getMaxProbability_stores)
  then have "maxProbabilityCache (exec_calls rnd cs st1) (n, l, m, Z) = Some v"
    using assms(2) by (simp add: exec_calls_keeps)
  then have "getMaxProbability rnd n l m Z (exec_calls rnd cs st1) = (v, exec_calls rnd cs st1)"
    by (rule getMaxProbability_hit)
  then show ?thesis
    using assms(2) by (simp add: exec_calls_keeps clearProbabilityCache_def)
qed

theorem cache_computed_once_witness:
  "getMaxProbability (\<lambda>k. 1 / 2) 1 0 0 1
     (exec_calls (\<lambda>k. 1 / 2) [Get 2 0 0 1, Get 1 0 0 1]
        (snd (getMaxProbability (\<lambda>k. 1 / 2) 1 0 0 1 \<lparr>maxProbabilityCache = Map.empty, draws = 0\<rparr>))) =
   (fst (getMaxProbability (\<lambda>k. 1 / 2) 1 0 0 1 \<lparr>maxProbabilityCache = Map.empty, draws = 0\<rparr>),
    exec_calls (\<lambda>k. 1 / 2) [Get 2 0 0 1, Get 1 0 0 1]
        (snd (getMaxProbability (\<lambda>k. 1 / 2) 1 0 0 1 \<lparr>maxProbabilityCache = Map.empty, draws = 0\<rparr>)))"
  using cache_computed_once [of "\<lambda>k. 1 / 2" 1 0 0 1 "\<lparr>maxProbabilityCache = Map.empty, draws = 0\<rparr>"
      "fst (getMaxProbability (\<lambda>k. 1 / 2) 1 0 0 1 \<lparr>maxProbabilityCache = Map.empty, draws = 0\<rparr>)"
      "snd (getMaxProbability (\<lambda>k. 1 / 2) 1 0 0 1 \<lparr>maxProbabilityCache = Map.empty, draws = 0\<rparr>)"
      "[Get 2 0 0 1, Get 1 0 0 1]"]
  by simp

section \<open>Electrons per orbital in a subshell\<close>

lemma electronsInThisOrbital_one:
  "totalElectrons \<noteq> 0 \<Longrightarrow> electronsInThisOrbital l totalElectrons m = 1"
proof -
  assume t: "totalElectrons \<noteq> 0"
  have "2 * l + 1 \<noteq> 0" by presburger
  then have "real_of_int totalElectrons / real_of_int (2 * l + 1) \<noteq> 0"
    using t by simp
  then show ?thesis
    by (simp add: electronsInThisOrbital_def Let_def)
qed

lemma sampleOrbital_returns:
  "0 \<le> numPoints \<Longrightarrow> \<exists>buf w g. sampleOrbital rnd rng0 n l m numPoints Z = Inr (buf, w, g)"
  by (simp add: sampleOrbital_def Let_def)

text \<open>
  C4: the claim has the \<open>electrons\<close> fields of \<open>sampleSubshell(n, l, totalElectrons, \<dots>)\<close>
  sum to \<open>totalElectrons\<close>. For the 1s subshell with two electrons the code returns one
  entry, \<open>m = 0\<close> with one electron: in \<open>electronsInThisOrbital\<close> the factor
  \<open>electronsPerOrbital\<close> cancels, so every orbital is given one electron.
\<close>

theorem sampleSubshell_1s_two_electrons:
  "\<exists>buf g. sampleSubshell rnd rng0 1 0 2 1 1 =
     Inr ([\<lparr>entry_m = 0, entry_electrons = 1, entry_points = buf\<rparr>], g)"
proof -
  obtain buf w g where so: "sampleOrbital rnd rng0 1 0 0 1 1 = Inr (buf, w, g)"
    using sampleOrbital_returns[of 1 rnd rng0 1 0 0 1] by auto
  have e: "electronsInThisOrbital 0 2 0 = 1"
    by (simp add: electronsInThisOrbital_one)
  have "sampleSubshell rnd rng0 1 0 2 1 1 =
     Inr ([\<lparr>entry_m = 0, entry_electrons = 1, entry_points = buf\<rparr>], g)"
    unfolding sampleSubshell_def
    by (subst subshell_loop.simps, simp add: e so Let_def, subst subshell_loop.simps, simp)
  then show ?thesis by blast
qed

section \<open>Spherical and Cartesian coordinates\<close>

lemma atan2_polar:
  assumes a: "0 < a" and lo: "- pi < phi" and hi: "phi \<le> pi"
  shows "atan2 (a * sin phi) (a * cos phi) = phi"
proof -
  have q: "a * sin phi / (a * cos phi) = tan phi"
    using a by (simp add: tan_def)
  consider "- pi / 2 < phi \<and> phi < pi / 2" | "phi = pi / 2" | "phi = - pi / 2"
    | "pi / 2 < phi" | "phi < - pi / 2"
    by linarith
  then show ?thesis
  proof cases
    case 1
    then have "0 < cos phi" by (simp add: cos_gt_zero_pi)
    then have "0 < a * cos phi" using a by simp
    then have "atan2 (a * sin phi) (a * cos phi) = arctan (tan phi)"
      by (simp only: atan2_def q if_True)
    then show ?thesis using 1 by (simp add: arctan_tan)
  next
    case 2
    show ?thesis unfolding 2 using a by (simp add: atan2_def)
  next
    case 3
    show ?thesis unfolding 3 using a by (simp add: atan2_def)
  next
    case 4
    have "0 < cos (phi - pi)" using 4 hi by (intro cos_gt_zero_pi) simp_all
    then have "cos phi < 0" by (simp add: cos_diff)
    then have neg: "a * cos phi < 0" using a by (simp add: mult_pos_neg)
    have "0 \<le> sin phi" using 4 hi pi_gt_zero by (intro sin_ge_zero) linarith+
    then have y: "0 \<le> a * sin phi" using a by simp
    have "tan phi = tan (phi - pi)" by (simp add: tan_def sin_diff cos_diff)
    moreover have "arctan (tan (phi - pi)) = phi - pi"
      using 4 hi by (intro arctan_tan) simp_all
    ultimately have "arctan (tan phi) = phi - pi" by simp
    moreover have "atan2 (a * sin phi) (a * cos phi) = arctan (tan phi) + pi"
      using neg y by (simp only: atan2_def q) simp
    ultimately show ?thesis by simp
  next
    case 5
    have "0 < cos (phi + pi)" using 5 lo by (intro cos_gt_zero_pi) simp_all
    then have "cos phi < 0" by (simp add: cos_add)
    then have neg: "a * cos phi < 0" using a by (simp add: mult_pos_neg)
    have "0 < sin (phi + pi)" using 5 lo pi_gt_zero by (intro sin_gt_zero) linarith+
    then have "sin phi < 0" by (simp add: sin_add)
    then have y: "a * sin phi < 0" using a by (simp add: mult_pos_neg)
    have "tan phi = tan (phi + pi)" by (simp add: tan_def sin_add cos_add)
    moreover have "arctan (tan (phi + pi)) = phi + pi"
      using 5 lo by (intro arctan_tan) simp_all
    ultimately have "arctan (tan phi) = phi + pi" by simp
    moreover have "atan2 (a * sin phi) (a * cos phi) = arctan (tan phi) - pi"
      using neg y by (simp only: atan2_def q) simp
    ultimately show ?thesis by simp
  qed
qed

lemma sum_of_squares:
  "(r * s * c) * (r * s * c) + (r * s * d) * (r * s * d) + (r * t) * (r * t)
     = r * r * ((s * s) * (c * c + d * d) + t * (t :: real))"
  by (simp add: algebra_simps)

lemma radius_recovered:
  "(r * sin theta * cos phi) * (r * sin theta * cos phi)
     + (r * sin theta * sin phi) * (r * sin theta * sin phi)
     + (r * cos theta) * (r * cos theta) = r * (r :: real)"
proof -
  have p: "cos phi * cos phi + sin phi * sin phi = 1"
    by (rule sin_cos_squared_add3)
  have t: "sin theta * sin theta * 1 + cos theta * cos theta = 1"
    using sin_cos_squared_add3[of theta] by (simp add: add.commute)
  show ?thesis
    unfolding sum_of_squares p t by simp
qed

lemma roundtrip_in_range:
  assumes r: "0 < r" and t: "0 < theta" "theta < pi" and p: "- pi < phi" "phi \<le> pi"
  shows "spherical_roundtrip r theta phi = (r, theta, phi)"
proof -
  have s: "0 < sin theta" using t by (rule sin_gt_zero)
  then have a: "0 < r * sin theta" using r by simp
  have n: "sqrt ((r * sin theta * cos phi) * (r * sin theta * cos phi)
     + (r * sin theta * sin phi) * (r * sin theta * sin phi)
     + (r * cos theta) * (r * cos theta)) = r"
    unfolding radius_recovered using r by simp
  have th: "arccos (r * cos theta / r) = theta"
    using r t by (simp add: arccos_cos)
  have ph: "atan2 (r * sin theta * sin phi) (r * sin theta * cos phi) = phi"
    using atan2_polar[OF a p] .
  show ?thesis
    unfolding spherical_roundtrip_def sphericalToCartesian_def cartesianToSpherical_def
      Let_def prod.case n th ph
    using r by simp
qed

text \<open>
  C8 (as amended): over the reals, for \<open>r > 0\<close> and \<open>0 < theta < \<pi>\<close>, converting
  \<open>(r, theta, phi)\<close> to Cartesian coordinates and back returns \<open>(r, theta, phi)\<close> when
  \<open>phi\<close> lies in \<open>(-\<pi>, \<pi>]\<close>, hence for \<open>phi\<close> in \<open>[0, \<pi>]\<close>, and returns
  \<open>(r, theta, phi - 2\<pi>)\<close> when \<open>phi\<close> lies in \<open>(\<pi>, 2\<pi>)\<close>: \<open>Math.atan2\<close> ranges over
  \<open>(-\<pi>, \<pi>]\<close>. At \<open>r = 0\<close> the result is \<open>(0, 0, 0)\<close>.
\<close>

theorem roundtrip_exact_in_atan2_range:
  assumes "0 < r" and "0 < theta" and "theta < pi"
  shows "(- pi < phi \<and> phi \<le> pi \<longrightarrow> spherical_roundtrip r theta phi = (r, theta, phi)) \<and>
         (pi < phi \<and> phi < 2 * pi \<longrightarrow> spherical_roundtrip r theta phi = (r, theta, phi - 2 * pi)) \<and>
         spherical_roundtrip 0 theta phi = (0, 0, 0)"
proof -
  have per: "spherical_roundtrip r theta phi = spherical_roundtrip r theta (phi - 2 * pi)"
    by (simp add: spherical_roundtrip_def sphericalToCartesian_def sin_diff cos_diff)
  have z: "spherical_roundtrip 0 theta phi = (0, 0, 0)"
    by (simp add: spherical_roundtrip_def sphericalToCartesian_def cartesianToSpherical_def)
  have hi: "pi < phi \<and> phi < 2 * pi \<longrightarrow> spherical_roundtrip r theta phi = (r, theta, phi - 2 * pi)"
    unfolding per using assms by (intro impI roundtrip_in_range) simp_all
  have lo: "- pi < phi \<and> phi \<le> pi \<longrightarrow> spherical_roundtrip r theta phi = (r, theta, phi)"
    using assms by (intro impI roundtrip_in_range) simp_all
  show ?thesis
    using lo hi z by (intro conjI)
qed

theorem roundtrip_exact_in_atan2_range_witness:
  "spherical_roundtrip 2 (pi / 2) (pi / 2) = (2, pi / 2, pi / 2) \<and>
   spherical_roundtrip 2 (pi / 2) (3 / 2 * pi) = (2, pi / 2, - pi / 2)"
proof -
  have "(- pi < pi / 2 \<and> pi / 2 \<le> pi \<longrightarrow>
           spherical_roundtrip 2 (pi / 2) (pi / 2) = (2, pi / 2, pi / 2)) \<and>
        (pi < 3 / 2 * pi \<and> 3 / 2 * pi < 2 * pi \<longrightarrow>
           spherical_roundtrip 2 (pi / 2) (3 / 2 * pi) = (2, pi / 2, 3 / 2 * pi - 2 * pi))"
    using roundtrip_exact_in_atan2_range [of 2 "pi / 2" "pi / 2"]
      roundtrip_exact_in_atan2_range [of 2 "pi / 2" "3 / 2 * pi"]
    by simp
  then show ?thesis by simp
qed

text \<open>
  C8 as stated fails for an azimuth beyond \<open>\<pi>\<close> and on the polar axis: \<open>(1, \<pi>/2, 3\<pi>/2)\<close>
  comes back as \<open>(1, \<pi>/2, -\<pi>/2)\<close>, and \<open>(1, 0, 1)\<close> as \<open>(1, 0, 0)\<close>.
\<close>

theorem roundtrip_not_identity:
  "spherical_roundtrip 1 (pi / 2) (3 / 2 * pi) = (1, pi / 2, - pi / 2) \<and>
   spherical_roundtrip 1 (pi / 2) (3 / 2 * pi) \<noteq> (1, pi / 2, 3 / 2 * pi) \<and>
   spherical_roundtrip 1 0 1 = (1, 0, 0) \<and>
   spherical_roundtrip 1 0 1 \<noteq> (1, 0, 1)"
proof -
  have c: "cos (3 * pi / 2) = 0" using cos_3over2_pi by simp
  have s: "sin (3 * pi / 2) = - 1" using sin_3over2_pi by simp
  have a: "spherical_roundtrip 1 (pi / 2) (3 / 2 * pi) = (1, pi / 2, - pi / 2)"
    by (simp add: spherical_roundtrip_def sphericalToCartesian_def cartesianToSpherical_def
        atan2_def c s)
  have b: "spherical_roundtrip 1 0 1 = (1, 0, 0)"
    by (simp add: spherical_roundtrip_def sphericalToCartesian_def cartesianToSpherical_def
        atan2_def)
  have "- pi / 2 \<noteq> 3 / 2 * pi" using pi_gt_zero by linarith
  then show ?thesis using a b by simp
qed

end
